theory Spec2Isabelle
  imports Main "HOL-Library.Word"
begin

section \<open>The channel multiplexer of fb-adb (core.c)\<close>

text \<open>
  The development embeds \<^verbatim>\<open>core.c\<close>: message detection on the peer-receive ring,
  the dispatcher with its three handlers, the emitters \<^verbatim>\<open>xmit_acks\<close>, \<^verbatim>\<open>xmit_data\<close>,
  \<^verbatim>\<open>xmit_eof\<close>, and the pump \<^verbatim>\<open>io_loop_pump\<close>. A call of \<^verbatim>\<open>die\<close> is a value
  \<open>Inl e\<close>; a function that returns yields \<open>Inr\<close> of the state it leaves behind.
\<close>

subsection \<open>Fatal exits\<close>

datatype error =
    Proto_error string
  | Die_ECOMM string
  | Assert_failed
  | Out_of_bounds

text \<open>
  \<open>Proto_error fmt\<close> is \<^verbatim>\<open>die_proto_error(fmt, ...)\<close>, that is \<^verbatim>\<open>die(ECOMM, "protocol error: %s", ...)\<close>;
  \<open>Die_ECOMM fmt\<close> is a direct \<^verbatim>\<open>die(ECOMM, fmt, ...)\<close>. \<open>Assert_failed\<close> is a failed
  \<^verbatim>\<open>assert\<close> or a ring-buffer operation called outside its contract, and \<open>Out_of_bounds\<close>
  is a read of \<^verbatim>\<open>sh->ch[i]\<close> with \<open>i\<close> outside the array (undefined behaviour in C).
\<close>

type_synonym byte = "8 word"

subsection \<open>Ring buffer (ringbuf.h)\<close>

text \<open>
  Modelled from the spec: \<^verbatim>\<open>ringbuf.h\<close> and \<^verbatim>\<open>ringbuf.c\<close> are not among the sources.
  Section 4.1 of the specification gives a fixed-capacity FIFO of bytes with
  \<^verbatim>\<open>size()\<close> the bytes readable, \<^verbatim>\<open>room() == capacity - size()\<close>, \<^verbatim>\<open>copy_out(dst, n)\<close>
  a peek of \<open>n\<close> bytes at the head, \<^verbatim>\<open>note_removed(n)\<close> advancing the head by \<open>n\<close>,
  and \<^verbatim>\<open>readable_iov(iov[2], n)\<close> two views totalling \<open>n\<close> readable bytes. A length
  argument beyond \<^verbatim>\<open>size()\<close> (or \<^verbatim>\<open>room()\<close>) is a programming error. The readable
  bytes are kept head first; the two views of \<^verbatim>\<open>readable_iov\<close> are represented by
  their concatenation, since the position of the wrap is not observable.
\<close>

record ringbuf =
  capacity :: nat
  content :: "byte list"

definition ringbuf_size :: "ringbuf \<Rightarrow> nat" where
  "ringbuf_size r = length (content r)"

definition ringbuf_room :: "ringbuf \<Rightarrow> nat" where
  "ringbuf_room r = capacity r - ringbuf_size r"

definition ringbuf_copy_out :: "ringbuf \<Rightarrow> nat \<Rightarrow> error + byte list" where
  "ringbuf_copy_out r n =
     (if n \<le> ringbuf_size r then Inr (take n (content r)) else Inl Assert_failed)"

definition ringbuf_note_removed :: "ringbuf \<Rightarrow> nat \<Rightarrow> error + ringbuf" where
  "ringbuf_note_removed r n =
     (if n \<le> ringbuf_size r then Inr (r\<lparr>content := drop n (content r)\<rparr>)
      else Inl Assert_failed)"

definition ringbuf_readable_iov :: "ringbuf \<Rightarrow> nat \<Rightarrow> error + byte list" where
  "ringbuf_readable_iov r n =
     (if n \<le> ringbuf_size r then Inr (take n (content r)) else Inl Assert_failed)"

text \<open>A ring never holds more than its capacity.\<close>

definition ringbuf_wf :: "ringbuf \<Rightarrow> bool" where
  "ringbuf_wf r \<longleftrightarrow> length (content r) \<le> capacity r"

subsection \<open>Messages (core.h)\<close>

text \<open>
  Modelled from the spec: \<^verbatim>\<open>core.h\<close> is not among the sources. Sections 3 and 6 of the
  specification give the wire format, little-endian and packed:
  \<^verbatim>\<open>msg { type:u8, _pad:u8, size:u16 }\<close>,
  \<^verbatim>\<open>msg_channel_data { msg; channel:u32; payload }\<close>,
  \<^verbatim>\<open>msg_channel_window { msg; channel:u32; window_delta:u32 }\<close>,
  \<^verbatim>\<open>msg_channel_close { msg; channel:u32 }\<close>.
  The numeric values of the \<^verbatim>\<open>msg_type\<close> enumerators are not stated there; the code
  only compares them for equality, so any three distinct values behave alike.
\<close>

record msg =
  mtype :: byte
  mpad :: byte
  msize :: "16 word"

record msg_channel_data =
  msg :: msg
  channel :: "32 word"

record msg_channel_window = msg_channel_data +
  window_delta :: "32 word"

type_synonym msg_channel_close = msg_channel_data

definition MSG_CHANNEL_DATA :: byte where "MSG_CHANNEL_DATA = 40"
definition MSG_CHANNEL_WINDOW :: byte where "MSG_CHANNEL_WINDOW = 41"
definition MSG_CHANNEL_CLOSE :: byte where "MSG_CHANNEL_CLOSE = 42"

definition sizeof_msg :: nat where "sizeof_msg = 4"
definition sizeof_msg_channel_data :: nat where "sizeof_msg_channel_data = 8"
definition sizeof_msg_channel_window :: nat where "sizeof_msg_channel_window = 12"
definition sizeof_msg_channel_close :: nat where "sizeof_msg_channel_close = 8"

definition le16 :: "byte \<Rightarrow> byte \<Rightarrow> 16 word" where
  "le16 b0 b1 = word_of_nat (unat b0 + 256 * unat b1)"

definition le32 :: "byte \<Rightarrow> byte \<Rightarrow> byte \<Rightarrow> byte \<Rightarrow> 32 word" where
  "le32 b0 b1 b2 b3 =
     word_of_nat (unat b0 + 256 * unat b1 + 65536 * unat b2 + 16777216 * unat b3)"

definition bytes_le16 :: "16 word \<Rightarrow> byte list" where
  "bytes_le16 w = [word_of_nat (unat w mod 256), word_of_nat (unat w div 256)]"

definition bytes_le32 :: "32 word \<Rightarrow> byte list" where
  "bytes_le32 w =
     [word_of_nat (unat w mod 256), word_of_nat (unat w div 256 mod 256),
      word_of_nat (unat w div 65536 mod 256), word_of_nat (unat w div 16777216)]"

text \<open>Reading a struct out of the bytes \<^verbatim>\<open>ringbuf_copy_out\<close> stored into it.\<close>

definition msg_of_bytes :: "byte list \<Rightarrow> msg" where
  "msg_of_bytes bs = \<lparr>mtype = bs ! 0, mpad = bs ! 1, msize = le16 (bs ! 2) (bs ! 3)\<rparr>"

definition msg_channel_data_of_bytes :: "byte list \<Rightarrow> msg_channel_data" where
  "msg_channel_data_of_bytes bs =
     \<lparr>msg = msg_of_bytes bs, channel = le32 (bs ! 4) (bs ! 5) (bs ! 6) (bs ! 7)\<rparr>"

definition msg_channel_window_of_bytes :: "byte list \<Rightarrow> msg_channel_window" where
  "msg_channel_window_of_bytes bs =
     \<lparr>msg = msg_of_bytes bs, channel = le32 (bs ! 4) (bs ! 5) (bs ! 6) (bs ! 7),
      window_delta = le32 (bs ! 8) (bs ! 9) (bs ! 10) (bs ! 11)\<rparr>"

text \<open>The bytes of a struct, as \<^verbatim>\<open>channel_write\<close> copies them from its address.\<close>

definition bytes_of_msg :: "msg \<Rightarrow> byte list" where
  "bytes_of_msg h = [mtype h, mpad h] @ bytes_le16 (msize h)"

definition bytes_of_msg_channel_data :: "msg_channel_data \<Rightarrow> byte list" where
  "bytes_of_msg_channel_data m = bytes_of_msg (msg m) @ bytes_le32 (channel m)"

definition bytes_of_msg_channel_window :: "msg_channel_window \<Rightarrow> byte list" where
  "bytes_of_msg_channel_window m =
     bytes_of_msg (msg m) @ bytes_le32 (channel m) @ bytes_le32 (window_delta m)"

definition zero_msg :: msg where
  "zero_msg = \<lparr>mtype = 0, mpad = 0, msize = 0\<rparr>"

subsection \<open>detect\_msg\<close>

text \<open>
  The C function returns a flag and fills \<^verbatim>\<open>*mhdr\<close>, which it zeroes first. The model
  returns the ring as the call leaves it, the flag, and the contents of \<^verbatim>\<open>*mhdr\<close>.
\<close>

definition detect_msg :: "ringbuf \<Rightarrow> error + (ringbuf \<times> bool \<times> msg)" where
  "detect_msg r =
     (let avail = ringbuf_size r in
      if avail < sizeof_msg then Inr (r, False, zero_msg)
      else
        case ringbuf_copy_out r sizeof_msg of
          Inl e \<Rightarrow> Inl e
        | Inr bs \<Rightarrow>
            let mhdr = msg_of_bytes bs in
            if avail < unat (msize mhdr) then
              (if unat (msize mhdr) - avail > ringbuf_room r
               then Inl (Proto_error ''impossibly large message: type:%u sz:%lu room:%lu'')
               else Inr (r, False, mhdr))
            else Inr (r, True, mhdr))"

subsection \<open>Channels (channel.h)\<close>

text \<open>
  Modelled from the spec: \<^verbatim>\<open>channel.h\<close> and \<^verbatim>\<open>channel.c\<close> are not among the sources.
  Section 3 of the specification lists the attributes of a channel, and section 4.2 the
  operations used here: \<^verbatim>\<open>write(iov[])\<close> appends bytes to \<^verbatim>\<open>rb\<close>, the caller
  guaranteeing \<^verbatim>\<open>rb.room() >= total\<close>; \<^verbatim>\<open>close()\<close> releases the fd and leaves
  \<^verbatim>\<open>rb\<close> intact. The fd handle is a number; \<open>None\<close> is the \<^verbatim>\<open>NULL\<close> handle.
\<close>

datatype channel_direction = CHANNEL_TO_FD | CHANNEL_FROM_FD

record channel =
  dir :: channel_direction
  fdh :: "nat option"
  rb :: ringbuf
  window :: "32 word"
  bytes_written :: "32 word"
  sent_eof :: bool
  pending_close :: bool

definition channel_write :: "channel \<Rightarrow> byte list \<Rightarrow> error + channel" where
  "channel_write c bs =
     (if length bs \<le> ringbuf_room (rb c)
      then Inr (c\<lparr>rb := (rb c)\<lparr>content := content (rb c) @ bs\<rparr>\<rparr>)
      else Inl Assert_failed)"

definition channel_close :: "channel \<Rightarrow> channel" where
  "channel_close c = c\<lparr>fdh := None\<rparr>"

subsection \<open>The session\<close>

text \<open>
  Modelled from the spec: \<^verbatim>\<open>struct fb_adb_sh\<close> is declared in \<^verbatim>\<open>core.h\<close>. The code
  reads its fields \<^verbatim>\<open>ch\<close> (an array of channel pointers, taken to be pairwise distinct),
  \<^verbatim>\<open>nrch\<close> and \<^verbatim>\<open>max_outgoing_msg\<close>; \<^verbatim>\<open>FROM_PEER = 0\<close>, \<^verbatim>\<open>TO_PEER = 1\<close> and
  \<^verbatim>\<open>NR_SPECIAL_CH = 1\<close> are as section 3 states them.

  The field \<open>sendlog\<close> is not a field of the C struct. It records, in order, the
  messages that the emitters hand to \<^verbatim>\<open>channel_write\<close> on \<^verbatim>\<open>TO_PEER\<close> (the messages
  that \<^verbatim>\<open>dbgmsg(&m.msg, "send")\<close> traces), so that the order of emission can be
  stated; no function of the model reads it.
\<close>

datatype frame =
    Frame_window msg_channel_window
  | Frame_data msg_channel_data "byte list"
  | Frame_close msg_channel_close

fun frame_bytes :: "frame \<Rightarrow> byte list" where
  "frame_bytes (Frame_window m) = bytes_of_msg_channel_window m"
| "frame_bytes (Frame_data m payload) = bytes_of_msg_channel_data m @ payload"
| "frame_bytes (Frame_close m) = bytes_of_msg_channel_data m"

record fb_adb_sh =
  ch :: "channel list"
  nrch :: nat
  max_outgoing_msg :: "32 word"
  sendlog :: "frame list"

definition FROM_PEER :: nat where "FROM_PEER = 0"
definition TO_PEER :: nat where "TO_PEER = 1"
definition NR_SPECIAL_CH :: nat where "NR_SPECIAL_CH = 1"

text \<open>\<^verbatim>\<open>sh->ch[i]\<close>, read and written through the pointer stored there.\<close>

definition ch_at :: "fb_adb_sh \<Rightarrow> nat \<Rightarrow> error + channel" where
  "ch_at sh i = (if i < length (ch sh) then Inr (ch sh ! i) else Inl Out_of_bounds)"

definition ch_set :: "fb_adb_sh \<Rightarrow> nat \<Rightarrow> channel \<Rightarrow> fb_adb_sh" where
  "ch_set sh i c = sh\<lparr>ch := (ch sh)[i := c]\<rparr>"

subsection \<open>Handlers of received messages\<close>

text \<open>
  \<^verbatim>\<open>size_t\<close> subtraction wraps around; the width is that of an LP64 target. Every
  subtraction of the code but the one in \<^verbatim>\<open>fb_adb_sh_process_msg_channel_data\<close> is
  guarded by a comparison in the same function.
\<close>

definition size_t_sub :: "nat \<Rightarrow> nat \<Rightarrow> nat" where
  "size_t_sub a b = (if b \<le> a then a - b else a + 2 ^ 64 - b)"

definition fb_adb_sh_process_msg_channel_data ::
    "fb_adb_sh \<Rightarrow> msg_channel_data \<Rightarrow> error + fb_adb_sh" where
  "fb_adb_sh_process_msg_channel_data sh m =
     (case ch_at sh FROM_PEER of
        Inl e \<Rightarrow> Inl e
      | Inr cmdch \<Rightarrow>
         (if unat (channel m) \<le> NR_SPECIAL_CH \<or> unat (channel m) > nrch sh
          then Inl (Proto_error ''data: invalid channel %d'')
          else
           (case ch_at sh (unat (channel m)) of
              Inl e \<Rightarrow> Inl e
            | Inr c \<Rightarrow>
               (if dir c = CHANNEL_FROM_FD
                then Inl (Proto_error ''wrong channel direction ch=%u'')
                else
                  let payloadsz = size_t_sub (unat (msize (msg m))) sizeof_msg_channel_data in
                  if fdh c = None then
                    (case ringbuf_note_removed (rb cmdch) payloadsz of
                       Inl e \<Rightarrow> Inl e
                     | Inr r \<Rightarrow> Inr (ch_set sh FROM_PEER (cmdch\<lparr>rb := r\<rparr>)))
                  else if ringbuf_room (rb c) < payloadsz
                  then Inl (Proto_error ''window desync'')
                  else
                   (case ringbuf_readable_iov (rb cmdch) payloadsz of
                      Inl e \<Rightarrow> Inl e
                    | Inr iov \<Rightarrow>
                       (case channel_write c iov of
                          Inl e \<Rightarrow> Inl e
                        | Inr c' \<Rightarrow>
                            let sh1 = ch_set sh (unat (channel m)) c' in
                           (case ch_at sh1 FROM_PEER of
                              Inl e \<Rightarrow> Inl e
                            | Inr cmdch1 \<Rightarrow>
                               (case ringbuf_note_removed (rb cmdch1) payloadsz of
                                  Inl e \<Rightarrow> Inl e
                                | Inr r \<Rightarrow>
                                    Inr (ch_set sh1 FROM_PEER (cmdch1\<lparr>rb := r\<rparr>))))))))))"

text \<open>
  Modelled from the spec: the macro \<^verbatim>\<open>SATADD(r, a, b)\<close> is not among the sources.
  Section 4.4 calls it a saturating addition that reports an overflow: the result
  stored is the sum, or the largest value when the sum does not fit, and the value of
  the macro tells which.
\<close>

definition SATADD :: "32 word \<Rightarrow> 32 word \<Rightarrow> bool \<times> 32 word" where
  "SATADD a b = (if unat a + unat b > 2 ^ 32 - 1 then (True, - 1) else (False, a + b))"

definition fb_adb_sh_process_msg_channel_window ::
    "fb_adb_sh \<Rightarrow> msg_channel_window \<Rightarrow> error + fb_adb_sh" where
  "fb_adb_sh_process_msg_channel_window sh m =
     (if unat (channel m) \<le> NR_SPECIAL_CH \<or> unat (channel m) > nrch sh
      then Inl (Proto_error ''window: invalid channel %d'')
      else
        case ch_at sh (unat (channel m)) of
          Inl e \<Rightarrow> Inl e
        | Inr c \<Rightarrow>
            if dir c = CHANNEL_TO_FD then Inl (Proto_error ''wrong channel direction'')
            else if fdh c = None then Inr sh
            else
              case SATADD (window c) (window_delta m) of
                (overflow, w) \<Rightarrow>
                  if overflow then Inl (Proto_error ''window overflow!?'')
                  else Inr (ch_set sh (unat (channel m)) (c\<lparr>window := w\<rparr>)))"

definition fb_adb_sh_process_msg_channel_close ::
    "fb_adb_sh \<Rightarrow> msg_channel_close \<Rightarrow> error + fb_adb_sh" where
  "fb_adb_sh_process_msg_channel_close sh m =
     (if unat (channel m) \<le> NR_SPECIAL_CH \<or> unat (channel m) > nrch sh
      then Inr sh
      else
        case ch_at sh (unat (channel m)) of
          Inl e \<Rightarrow> Inl e
        | Inr c \<Rightarrow>
            Inr (ch_set sh (unat (channel m)) (channel_close (c\<lparr>sent_eof := True\<rparr>))))"

definition read_cmdmsg :: "fb_adb_sh \<Rightarrow> msg \<Rightarrow> nat \<Rightarrow> error + (fb_adb_sh \<times> byte list)" where
  "read_cmdmsg sh mhdr msz =
     (if unat (msize mhdr) \<noteq> msz
      then Inl (Proto_error ''wrong msg size type:%u expected:%u received:%u'')
      else
       (case ch_at sh FROM_PEER of
          Inl e \<Rightarrow> Inl e
        | Inr cmdch \<Rightarrow>
           (case ringbuf_copy_out (rb cmdch) msz of
              Inl e \<Rightarrow> Inl e
            | Inr mbuf \<Rightarrow>
               (case ringbuf_note_removed (rb cmdch) msz of
                  Inl e \<Rightarrow> Inl e
                | Inr r \<Rightarrow> Inr (ch_set sh FROM_PEER (cmdch\<lparr>rb := r\<rparr>), mbuf)))))"

definition fb_adb_sh_process_msg :: "fb_adb_sh \<Rightarrow> msg \<Rightarrow> error + fb_adb_sh" where
  "fb_adb_sh_process_msg sh mhdr =
     (case ch_at sh FROM_PEER of
        Inl e \<Rightarrow> Inl e
      | Inr cmdch \<Rightarrow>
         (if mtype mhdr = MSG_CHANNEL_DATA then
            (if unat (msize mhdr) < sizeof_msg_channel_data
             then Inl (Proto_error ''wrong msg size %u'')
             else
              (case ringbuf_copy_out (rb cmdch) sizeof_msg_channel_data of
                 Inl e \<Rightarrow> Inl e
               | Inr mbuf \<Rightarrow>
                  (case ringbuf_note_removed (rb cmdch) sizeof_msg_channel_data of
                     Inl e \<Rightarrow> Inl e
                   | Inr r \<Rightarrow>
                       fb_adb_sh_process_msg_channel_data
                         (ch_set sh FROM_PEER (cmdch\<lparr>rb := r\<rparr>))
                         (msg_channel_data_of_bytes mbuf))))
          else if mtype mhdr = MSG_CHANNEL_WINDOW then
            (case read_cmdmsg sh mhdr sizeof_msg_channel_window of
               Inl e \<Rightarrow> Inl e
             | Inr (sh1, mbuf) \<Rightarrow>
                 fb_adb_sh_process_msg_channel_window sh1 (msg_channel_window_of_bytes mbuf))
          else if mtype mhdr = MSG_CHANNEL_CLOSE then
            (case read_cmdmsg sh mhdr sizeof_msg_channel_close of
               Inl e \<Rightarrow> Inl e
             | Inr (sh1, mbuf) \<Rightarrow>
                 fb_adb_sh_process_msg_channel_close sh1 (msg_channel_data_of_bytes mbuf))
          else
            (case ringbuf_note_removed (rb cmdch) (unat (msize mhdr)) of
               Inl e \<Rightarrow> Inl e
             | Inr r \<Rightarrow> Inl (Die_ECOMM ''unrecognized command %d (sz=%hu)''))))"

subsection \<open>Emitters\<close>

definition fb_adb_maxoutmsg :: "fb_adb_sh \<Rightarrow> error + nat" where
  "fb_adb_maxoutmsg sh =
     (case ch_at sh TO_PEER of
        Inl e \<Rightarrow> Inl e
      | Inr p \<Rightarrow> Inr (min (unat (max_outgoing_msg sh)) (ringbuf_room (rb p))))"

text \<open>
  \<^verbatim>\<open>dbgmsg(&m.msg, "send")\<close> followed by \<^verbatim>\<open>channel_write(sh->ch[TO_PEER], ...)\<close>,
  the pair of calls with which each emitter hands its message over.
\<close>

definition send_frame :: "frame \<Rightarrow> fb_adb_sh \<Rightarrow> error + fb_adb_sh" where
  "send_frame f sh =
     (case ch_at sh TO_PEER of
        Inl e \<Rightarrow> Inl e
      | Inr p \<Rightarrow>
         (case channel_write p (frame_bytes f) of
            Inl e \<Rightarrow> Inl e
          | Inr p' \<Rightarrow> Inr ((ch_set sh TO_PEER p')\<lparr>sendlog := sendlog sh @ [f]\<rparr>)))"

text \<open>
  The emitters take the channel as a pointer \<^verbatim>\<open>c\<close> and its number \<^verbatim>\<open>chno\<close>; the pump
  passes \<^verbatim>\<open>ch[chno]\<close>. The model takes the number, and reads the channel again after
  the write to \<^verbatim>\<open>TO_PEER\<close>, which is the same object when \<^verbatim>\<open>chno == TO_PEER\<close>.
\<close>

definition xmit_acks :: "nat \<Rightarrow> fb_adb_sh \<Rightarrow> error + fb_adb_sh" where
  "xmit_acks chno sh =
     (case ch_at sh chno of
        Inl e \<Rightarrow> Inl e
      | Inr c \<Rightarrow>
         (case fb_adb_maxoutmsg sh of
            Inl e \<Rightarrow> Inl e
          | Inr maxoutmsg \<Rightarrow>
              if bytes_written c > 0 \<and> maxoutmsg \<ge> sizeof_msg_channel_window then
                let m = \<lparr>msg = \<lparr>mtype = MSG_CHANNEL_WINDOW, mpad = 0,
                                 msize = word_of_nat sizeof_msg_channel_window\<rparr>,
                         channel = word_of_nat chno,
                         window_delta = bytes_written c\<rparr> in
                (case send_frame (Frame_window m) sh of
                   Inl e \<Rightarrow> Inl e
                 | Inr sh1 \<Rightarrow>
                    (case ch_at sh1 chno of
                       Inl e \<Rightarrow> Inl e
                     | Inr c1 \<Rightarrow> Inr (ch_set sh1 chno (c1\<lparr>bytes_written := 0\<rparr>))))
              else Inr sh))"

definition xmit_data :: "nat \<Rightarrow> fb_adb_sh \<Rightarrow> error + fb_adb_sh" where
  "xmit_data chno sh =
     (case ch_at sh chno of
        Inl e \<Rightarrow> Inl e
      | Inr c \<Rightarrow>
          if dir c \<noteq> CHANNEL_FROM_FD then Inr sh
          else
           (case fb_adb_maxoutmsg sh of
              Inl e \<Rightarrow> Inl e
            | Inr maxoutmsg \<Rightarrow>
                let avail = ringbuf_size (rb c) in
                if maxoutmsg > sizeof_msg_channel_data \<and> avail > 0 then
                  let payloadsz = min avail (maxoutmsg - sizeof_msg_channel_data) in
                  (case ringbuf_readable_iov (rb c) payloadsz of
                     Inl e \<Rightarrow> Inl e
                   | Inr iov \<Rightarrow>
                       let m = \<lparr>msg = \<lparr>mtype = MSG_CHANNEL_DATA, mpad = 0,
                                        msize = word_of_nat (sizeof_msg_channel_data + length iov)\<rparr>,
                                channel = word_of_nat chno\<rparr> in
                       if chno = 0 then Inl Assert_failed
                       else
                        (case send_frame (Frame_data m iov) sh of
                           Inl e \<Rightarrow> Inl e
                         | Inr sh1 \<Rightarrow>
                            (case ch_at sh1 chno of
                               Inl e \<Rightarrow> Inl e
                             | Inr c1 \<Rightarrow>
                                (case ringbuf_note_removed (rb c1) payloadsz of
                                   Inl e \<Rightarrow> Inl e
                                 | Inr r \<Rightarrow> Inr (ch_set sh1 chno (c1\<lparr>rb := r\<rparr>))))))
                else Inr sh))"

definition xmit_eof :: "nat \<Rightarrow> fb_adb_sh \<Rightarrow> error + fb_adb_sh" where
  "xmit_eof chno sh =
     (case ch_at sh chno of
        Inl e \<Rightarrow> Inl e
      | Inr c \<Rightarrow>
          if fdh c = None \<and> sent_eof c = False \<and> ringbuf_size (rb c) = 0 then
            (case fb_adb_maxoutmsg sh of
               Inl e \<Rightarrow> Inl e
             | Inr maxoutmsg \<Rightarrow>
                 if maxoutmsg \<ge> sizeof_msg_channel_close then
                   let m = \<lparr>msg = \<lparr>mtype = MSG_CHANNEL_CLOSE, mpad = 0,
                                    msize = word_of_nat sizeof_msg_channel_close\<rparr>,
                            channel = word_of_nat chno\<rparr> in
                   (case send_frame (Frame_close m) sh of
                      Inl e \<Rightarrow> Inl e
                    | Inr sh1 \<Rightarrow>
                       (case ch_at sh1 chno of
                          Inl e \<Rightarrow> Inl e
                        | Inr c1 \<Rightarrow> Inr (ch_set sh1 chno (c1\<lparr>sent_eof := True\<rparr>))))
                 else Inr sh)
          else Inr sh)"

definition do_pending_close :: "nat \<Rightarrow> fb_adb_sh \<Rightarrow> error + fb_adb_sh" where
  "do_pending_close chno sh =
     (case ch_at sh chno of
        Inl e \<Rightarrow> Inl e
      | Inr c \<Rightarrow>
          if dir c = CHANNEL_TO_FD \<and> fdh c \<noteq> None \<and> ringbuf_size (rb c) = 0 \<and> pending_close c
          then Inr (ch_set sh chno (channel_close c))
          else Inr sh)"

subsection \<open>The pump\<close>

text \<open>A \<^verbatim>\<open>for (chno = 0; chno < nrch; ++chno)\<close> loop over the channel numbers given.\<close>

fun for_chno :: "(nat \<Rightarrow> fb_adb_sh \<Rightarrow> error + fb_adb_sh) \<Rightarrow> nat list \<Rightarrow> fb_adb_sh \<Rightarrow> error + fb_adb_sh" where
  "for_chno body [] sh = Inr sh"
| "for_chno body (chno # rest) sh =
     (case body chno sh of Inl e \<Rightarrow> Inl e | Inr sh1 \<Rightarrow> for_chno body rest sh1)"

text \<open>The body of the second loop of \<^verbatim>\<open>io_loop_pump\<close>.\<close>

definition pump_channel :: "nat \<Rightarrow> fb_adb_sh \<Rightarrow> error + fb_adb_sh" where
  "pump_channel chno sh =
     (case (if chno > NR_SPECIAL_CH then xmit_data chno sh else Inr sh) of
        Inl e \<Rightarrow> Inl e
      | Inr sh1 \<Rightarrow>
         (case do_pending_close chno sh1 of
            Inl e \<Rightarrow> Inl e
          | Inr sh2 \<Rightarrow> xmit_eof chno sh2))"

text \<open>The bytes readable on the peer-receive ring, the measure of the first loop.\<close>

definition peer_avail :: "fb_adb_sh \<Rightarrow> nat" where
  "peer_avail sh = (case ch_at sh FROM_PEER of Inl e \<Rightarrow> 0 | Inr c \<Rightarrow> ringbuf_size (rb c))"

text \<open>
  The first loop of \<^verbatim>\<open>io_loop_pump\<close>: \<^verbatim>\<open>while (detect_msg(ch[FROM_PEER]->rb, &mhdr))
  sh->process_msg(sh, mhdr)\<close>, with the base handler for \<^verbatim>\<open>sh->process_msg\<close>.
\<close>

function drain_peer :: "fb_adb_sh \<Rightarrow> error + fb_adb_sh" where
  "drain_peer sh =
     (case ch_at sh FROM_PEER of
        Inl e \<Rightarrow> Inl e
      | Inr c \<Rightarrow>
         (case detect_msg (rb c) of
            Inl e \<Rightarrow> Inl e
          | Inr (r, found, mhdr) \<Rightarrow>
              let sh0 = ch_set sh FROM_PEER (c\<lparr>rb := r\<rparr>) in
              if found then
                (case fb_adb_sh_process_msg sh0 mhdr of
                   Inl e \<Rightarrow> Inl e
                 | Inr sh1 \<Rightarrow> drain_peer sh1)
              else Inr sh0))"
  by pat_completeness auto

text \<open>
  \<^verbatim>\<open>io_loop_pump\<close>: the assertion, the drain loop, the loop of acknowledgements and the
  loop over the channels, with \<^verbatim>\<open>nrch\<close> read once at the start as the C function does.
\<close>

definition io_loop_pump :: "fb_adb_sh \<Rightarrow> error + fb_adb_sh" where
  "io_loop_pump sh =
     (let n = nrch sh in
      if \<not> n \<ge> NR_SPECIAL_CH then Inl Assert_failed
      else
       (case drain_peer sh of
          Inl e \<Rightarrow> Inl e
        | Inr sh1 \<Rightarrow>
           (case for_chno xmit_acks [0..<n] sh1 of
              Inl e \<Rightarrow> Inl e
            | Inr sh2 \<Rightarrow> for_chno pump_channel [0..<n] sh2)))"

subsection \<open>Notions used in the statements\<close>

text \<open>The header at the head of a ring that holds at least four bytes.\<close>

definition peek_header :: "ringbuf \<Rightarrow> msg" where
  "peek_header r = msg_of_bytes (take sizeof_msg (content r))"

text \<open>
  The state with \<open>n\<close> bytes taken off the head of the peer-receive ring, and the state
  with bytes appended to the ring of channel \<open>i\<close>.
\<close>

definition peer_consumed :: "fb_adb_sh \<Rightarrow> nat \<Rightarrow> fb_adb_sh" where
  "peer_consumed sh n =
     ch_set sh FROM_PEER
       ((ch sh ! FROM_PEER)\<lparr>rb := (rb (ch sh ! FROM_PEER))
          \<lparr>content := drop n (content (rb (ch sh ! FROM_PEER)))\<rparr>\<rparr>)"

definition ring_appended :: "fb_adb_sh \<Rightarrow> nat \<Rightarrow> byte list \<Rightarrow> fb_adb_sh" where
  "ring_appended sh i bs =
     ch_set sh i ((ch sh ! i)\<lparr>rb := (rb (ch sh ! i))\<lparr>content := content (rb (ch sh ! i)) @ bs\<rparr>\<rparr>)"

text \<open>
  The \<^verbatim>\<open>msg_channel_data\<close> header at the head of the peer-receive ring, the channel
  number it names, and the payload that follows it for a message of header \<open>mhdr\<close>.
\<close>

definition data_payload :: "fb_adb_sh \<Rightarrow> msg \<Rightarrow> byte list" where
  "data_payload sh mhdr =
     take (unat (msize mhdr) - sizeof_msg_channel_data)
       (drop sizeof_msg_channel_data (content (rb (ch sh ! FROM_PEER))))"

definition data_header :: "fb_adb_sh \<Rightarrow> msg_channel_data" where
  "data_header sh =
     msg_channel_data_of_bytes (take sizeof_msg_channel_data (content (rb (ch sh ! FROM_PEER))))"

definition data_channel :: "fb_adb_sh \<Rightarrow> nat" where
  "data_channel sh = unat (channel (data_header sh))"

definition data_payloadsz :: "msg \<Rightarrow> nat" where
  "data_payloadsz mhdr = unat (msize mhdr) - sizeof_msg_channel_data"

text \<open>
  The state after a message has been handed over on \<^verbatim>\<open>TO_PEER\<close>, and the state with
  \<open>n\<close> bytes taken off the head of the ring of channel \<open>i\<close>.
\<close>

definition framed :: "frame \<Rightarrow> fb_adb_sh \<Rightarrow> fb_adb_sh" where
  "framed f sh = (ring_appended sh TO_PEER (frame_bytes f))\<lparr>sendlog := sendlog sh @ [f]\<rparr>"

definition ring_consumed :: "fb_adb_sh \<Rightarrow> nat \<Rightarrow> nat \<Rightarrow> fb_adb_sh" where
  "ring_consumed sh i n =
     ch_set sh i ((ch sh ! i)\<lparr>rb := (rb (ch sh ! i))\<lparr>content := drop n (content (rb (ch sh ! i)))\<rparr>\<rparr>)"

text \<open>
  The budget \<^verbatim>\<open>fb_adb_maxoutmsg\<close> computes, and the payload length and the message that
  \<^verbatim>\<open>xmit_data\<close> derives from it for channel \<open>chno\<close>.
\<close>

definition out_budget :: "fb_adb_sh \<Rightarrow> nat" where
  "out_budget sh = min (unat (max_outgoing_msg sh)) (ringbuf_room (rb (ch sh ! TO_PEER)))"

definition data_len :: "nat \<Rightarrow> fb_adb_sh \<Rightarrow> nat" where
  "data_len chno sh =
     min (ringbuf_size (rb (ch sh ! chno))) (out_budget sh - sizeof_msg_channel_data)"

definition data_frame :: "nat \<Rightarrow> fb_adb_sh \<Rightarrow> frame" where
  "data_frame chno sh =
     Frame_data
       \<lparr>msg = \<lparr>mtype = MSG_CHANNEL_DATA, mpad = 0,
                msize = word_of_nat (sizeof_msg_channel_data + data_len chno sh)\<rparr>,
        channel = word_of_nat chno\<rparr>
       (take (data_len chno sh) (content (rb (ch sh ! chno))))"

text \<open>The size field and the payload of a message handed over.\<close>

fun frame_size :: "frame \<Rightarrow> nat" where
  "frame_size (Frame_window m) = unat (msize (msg m))"
| "frame_size (Frame_data m payload) = unat (msize (msg m))"
| "frame_size (Frame_close m) = unat (msize (msg m))"

fun frame_payload :: "frame \<Rightarrow> byte list" where
  "frame_payload (Frame_data m payload) = payload"
| "frame_payload f = []"

text \<open>The messages that \<^verbatim>\<open>xmit_acks\<close> and \<^verbatim>\<open>xmit_eof\<close> build for channel \<open>chno\<close>.\<close>

definition window_frame :: "nat \<Rightarrow> 32 word \<Rightarrow> frame" where
  "window_frame chno delta =
     Frame_window
       \<lparr>msg = \<lparr>mtype = MSG_CHANNEL_WINDOW, mpad = 0,
                msize = word_of_nat sizeof_msg_channel_window\<rparr>,
        channel = word_of_nat chno, window_delta = delta\<rparr>"

definition close_frame :: "nat \<Rightarrow> frame" where
  "close_frame chno =
     Frame_close
       \<lparr>msg = \<lparr>mtype = MSG_CHANNEL_CLOSE, mpad = 0,
                msize = word_of_nat sizeof_msg_channel_close\<rparr>,
        channel = word_of_nat chno\<rparr>"

text \<open>The channel number a message carries, and the kind of a message.\<close>

fun frame_channel :: "frame \<Rightarrow> nat" where
  "frame_channel (Frame_window m) = unat (channel m)"
| "frame_channel (Frame_data m payload) = unat (channel m)"
| "frame_channel (Frame_close m) = unat (channel m)"

fun is_window :: "frame \<Rightarrow> bool" where
  "is_window (Frame_window m) = True"
| "is_window f = False"

fun is_data :: "frame \<Rightarrow> bool" where
  "is_data (Frame_data m payload) = True"
| "is_data f = False"

fun is_close :: "frame \<Rightarrow> bool" where
  "is_close (Frame_close m) = True"
| "is_close f = False"

text \<open>The \<^verbatim>\<open>CHANNEL_DATA\<close> and the \<^verbatim>\<open>CHANNEL_CLOSE\<close> messages of a log that carry channel \<open>k\<close>.\<close>

definition data_for :: "nat \<Rightarrow> frame list \<Rightarrow> frame list" where
  "data_for k fs = filter (\<lambda>f. is_data f \<and> frame_channel f = k) fs"

definition close_for :: "nat \<Rightarrow> frame list \<Rightarrow> frame list" where
  "close_for k fs = filter (\<lambda>f. is_close f \<and> frame_channel f = k) fs"

text \<open>
  A channel that has said its last word: the fd handle is gone, \<^verbatim>\<open>sent_eof\<close> is set
  and the ring is empty. This is the state in which \<^verbatim>\<open>xmit_eof\<close> leaves a channel.
\<close>

definition quiet :: "channel \<Rightarrow> bool" where
  "quiet c \<longleftrightarrow> fdh c = None \<and> sent_eof c \<and> content (rb c) = []"

text \<open>
  What every operation of \<^verbatim>\<open>core.c\<close> keeps of a session: the channel array and
  \<^verbatim>\<open>nrch\<close> keep their size, a \<^verbatim>\<open>sent_eof\<close> flag that is set stays set, and a user
  channel that is quiet stays quiet.
\<close>

definition keeps :: "fb_adb_sh \<Rightarrow> fb_adb_sh \<Rightarrow> bool" where
  "keeps sh sh' \<longleftrightarrow>
     length (ch sh') = length (ch sh) \<and> nrch sh' = nrch sh \<and>
     (\<forall>k<length (ch sh).
        (sent_eof (ch sh ! k) \<longrightarrow> sent_eof (ch sh' ! k)) \<and>
        (NR_SPECIAL_CH < k \<and> quiet (ch sh ! k) \<longrightarrow> quiet (ch sh' ! k)))"

subsection \<open>The life of a session\<close>

text \<open>
  Modelled from the spec: \<^verbatim>\<open>io_loop_do_io\<close> calls \<^verbatim>\<open>channel_request_poll\<close> and
  \<^verbatim>\<open>channel_poll\<close> of \<^verbatim>\<open>channel.c\<close>, which is not among the sources, and the bytes
  read and written come from outside. By sections 4.2 and 4.6 of the specification a
  channel asks for events only while it has an fd handle, and a poll reads into or
  writes from the ring, adjusts \<^verbatim>\<open>window\<close> and \<^verbatim>\<open>bytes_written\<close>, and may release
  the fd. The step is therefore a relation: a channel without an fd handle stays as it
  is, and a step changes neither the direction, the capacity nor the flags
  \<^verbatim>\<open>sent_eof\<close> and \<^verbatim>\<open>pending_close\<close> of a channel.
\<close>

definition poll_step :: "channel \<Rightarrow> channel \<Rightarrow> bool" where
  "poll_step c c' \<longleftrightarrow>
     dir c' = dir c \<and> sent_eof c' = sent_eof c \<and> pending_close c' = pending_close c \<and>
     capacity (rb c') = capacity (rb c) \<and>
     (fdh c' = fdh c \<or> fdh c' = None) \<and>
     (fdh c = None \<longrightarrow> c' = c)"

definition do_io_step :: "fb_adb_sh \<Rightarrow> fb_adb_sh \<Rightarrow> bool" where
  "do_io_step sh sh' \<longleftrightarrow>
     nrch sh' = nrch sh \<and> max_outgoing_msg sh' = max_outgoing_msg sh \<and>
     sendlog sh' = sendlog sh \<and> list_all2 poll_step (ch sh) (ch sh')"

text \<open>A session alternates \<^verbatim>\<open>io_loop_do_io\<close> and \<^verbatim>\<open>io_loop_pump\<close>, in any order here.\<close>

inductive session_run :: "fb_adb_sh \<Rightarrow> fb_adb_sh \<Rightarrow> bool" for sh :: fb_adb_sh where
  start: "session_run sh sh"
| pump: "session_run sh s \<Longrightarrow> io_loop_pump s = Inr s' \<Longrightarrow> session_run sh s'"
| do_io: "session_run sh s \<Longrightarrow> do_io_step s s' \<Longrightarrow> session_run sh s'"

text \<open>
  The invariant behind the count of \<^verbatim>\<open>CHANNEL_CLOSE\<close> messages: a channel has at most
  one in the log, and none unless its \<^verbatim>\<open>sent_eof\<close> is set. Channel numbers are
  \<^verbatim>\<open>unsigned\<close>, so the array holds at most \<open>2^32\<close> channels.
\<close>

definition close_counted :: "fb_adb_sh \<Rightarrow> bool" where
  "close_counted s \<longleftrightarrow>
     length (ch s) \<le> 2 ^ 32 \<and>
     (\<forall>k. length (close_for k (sendlog s)) \<le>
            (if k < length (ch s) \<and> sent_eof (ch s ! k) then 1 else 0))"


subsection \<open>What a pump iteration hands over\<close>

text \<open>
  The messages one call of \<^verbatim>\<open>xmit_acks\<close> may hand over for channel \<open>chno\<close>: none, or
  one \<^verbatim>\<open>CHANNEL_WINDOW\<close> for that channel. The messages one turn of the second loop of
  the pump may hand over for channel \<open>chno\<close>: none, one \<^verbatim>\<open>CHANNEL_DATA\<close> (user
  channels only), one \<^verbatim>\<open>CHANNEL_CLOSE\<close>, or a \<^verbatim>\<open>CHANNEL_DATA\<close> followed by a
  \<^verbatim>\<open>CHANNEL_CLOSE\<close>, all for that channel.
\<close>

fun ack_frames :: "nat \<Rightarrow> frame list \<Rightarrow> bool" where
  "ack_frames chno [] = True"
| "ack_frames chno [f] = (is_window f \<and> frame_channel f = chno)"
| "ack_frames chno (f # g # fs) = False"

fun channel_frames :: "nat \<Rightarrow> frame list \<Rightarrow> bool" where
  "channel_frames chno [] = True"
| "channel_frames chno [f] =
     (((is_data f \<and> NR_SPECIAL_CH < chno) \<or> is_close f) \<and> frame_channel f = chno)"
| "channel_frames chno [f, g] =
     (is_data f \<and> NR_SPECIAL_CH < chno \<and> is_close g \<and>
      frame_channel f = chno \<and> frame_channel g = chno)"
| "channel_frames chno (f # g # h # fs) = False"

text \<open>
  The bytes queued on the \<^verbatim>\<open>TO_PEER\<close> ring, and a step that appends the messages
  \<open>new\<close> to the log and their bytes to that ring.
\<close>

definition peer_bytes :: "fb_adb_sh \<Rightarrow> byte list" where
  "peer_bytes s = content (rb (ch s ! TO_PEER))"

definition emits :: "fb_adb_sh \<Rightarrow> fb_adb_sh \<Rightarrow> frame list \<Rightarrow> bool" where
  "emits s s' new \<longleftrightarrow>
     sendlog s' = sendlog s @ new \<and>
     peer_bytes s' = peer_bytes s @ concat (map frame_bytes new)"

subsection \<open>Sessions to evaluate on\<close>

text \<open>
  Six channels: the two special ones, a source with three bytes buffered, a sink of
  capacity four, a sink whose fd is gone, and a source whose fd is gone with two bytes
  still buffered.
\<close>

definition demo_ch :: "channel_direction \<Rightarrow> nat option \<Rightarrow> nat \<Rightarrow> byte list \<Rightarrow> channel" where
  "demo_ch d f cap bs =
     \<lparr>dir = d, fdh = f, rb = \<lparr>capacity = cap, content = bs\<rparr>, window = 0,
      bytes_written = 0, sent_eof = False, pending_close = False\<rparr>"

definition demo_sh :: "byte list \<Rightarrow> byte list \<Rightarrow> fb_adb_sh" where
  "demo_sh peer sink =
     \<lparr>ch = [demo_ch CHANNEL_FROM_FD (Some 0) 64 peer,
            demo_ch CHANNEL_TO_FD (Some 1) 64 [],
            demo_ch CHANNEL_FROM_FD (Some 5) 16 [1, 2, 3],
            demo_ch CHANNEL_TO_FD (Some 6) 4 sink,
            demo_ch CHANNEL_TO_FD None 16 [],
            demo_ch CHANNEL_FROM_FD None 16 [4, 5]],
      nrch = 6, max_outgoing_msg = 4096, sendlog = []\<rparr>"

text \<open>The same session with a credit window of \<open>w\<close> on the open source, channel 2.\<close>

definition demo_window :: "32 word \<Rightarrow> fb_adb_sh" where
  "demo_window w =
     ch_set (demo_sh [] []) 2 ((demo_ch CHANNEL_FROM_FD (Some 5) 16 [1, 2, 3])\<lparr>window := w\<rparr>)"

text \<open>The session of six channels with a peer that accepts messages of eight bytes at most.\<close>

definition demo_tight :: fb_adb_sh where
  "demo_tight = (demo_sh [] [])\<lparr>max_outgoing_msg := 8\<rparr>"

text \<open>
  A session of six channels before and after one pump: a source with three bytes, a
  sink that has written seven bytes since its last acknowledgement, a closed sink whose
  close has been sent, and a closed sink whose close has not.
\<close>

definition demo_pump :: fb_adb_sh where
  "demo_pump =
     \<lparr>ch = [demo_ch CHANNEL_FROM_FD (Some 0) 64 [],
            demo_ch CHANNEL_TO_FD (Some 1) 64 [],
            demo_ch CHANNEL_FROM_FD (Some 5) 16 [1, 2, 3],
            (demo_ch CHANNEL_TO_FD (Some 6) 16 [])\<lparr>bytes_written := 7\<rparr>,
            (demo_ch CHANNEL_TO_FD None 16 [])\<lparr>sent_eof := True\<rparr>,
            demo_ch CHANNEL_TO_FD None 16 []],
      nrch = 6, max_outgoing_msg = 4096, sendlog = []\<rparr>"

definition demo_pumped :: fb_adb_sh where
  "demo_pumped =
     \<lparr>ch = [demo_ch CHANNEL_FROM_FD (Some 0) 64 [],
            demo_ch CHANNEL_TO_FD (Some 1) 64
              [41, 0, 12, 0, 3, 0, 0, 0, 7, 0, 0, 0,
               40, 0, 11, 0, 2, 0, 0, 0, 1, 2, 3,
               42, 0, 8, 0, 5, 0, 0, 0],
            demo_ch CHANNEL_FROM_FD (Some 5) 16 [],
            demo_ch CHANNEL_TO_FD (Some 6) 16 [],
            (demo_ch CHANNEL_TO_FD None 16 [])\<lparr>sent_eof := True\<rparr>,
            (demo_ch CHANNEL_TO_FD None 16 [])\<lparr>sent_eof := True\<rparr>],
      nrch = 6, max_outgoing_msg = 4096,
      sendlog =
        [Frame_window \<lparr>msg = \<lparr>mtype = 41, mpad = 0, msize = 12\<rparr>, channel = 3, window_delta = 7\<rparr>,
         Frame_data \<lparr>msg = \<lparr>mtype = 40, mpad = 0, msize = 11\<rparr>, channel = 2\<rparr> [1, 2, 3],
         Frame_close \<lparr>msg = \<lparr>mtype = 42, mpad = 0, msize = 8\<rparr>, channel = 5\<rparr>]\<rparr>"

text \<open>
  A session of four channels before and after one pump: a source whose fd is gone with
  three bytes still buffered, and a sink with an fd handle, an empty ring and a close
  pending.
\<close>

definition demo_order :: fb_adb_sh where
  "demo_order =
     \<lparr>ch = [demo_ch CHANNEL_FROM_FD (Some 0) 64 [],
            demo_ch CHANNEL_TO_FD (Some 1) 64 [],
            demo_ch CHANNEL_FROM_FD None 16 [1, 2, 3],
            (demo_ch CHANNEL_TO_FD (Some 6) 16 [])\<lparr>pending_close := True\<rparr>],
      nrch = 4, max_outgoing_msg = 4096, sendlog = []\<rparr>"

definition demo_ordered :: fb_adb_sh where
  "demo_ordered =
     \<lparr>ch = [demo_ch CHANNEL_FROM_FD (Some 0) 64 [],
            demo_ch CHANNEL_TO_FD (Some 1) 64
              [40, 0, 11, 0, 2, 0, 0, 0, 1, 2, 3,
               42, 0, 8, 0, 2, 0, 0, 0,
               42, 0, 8, 0, 3, 0, 0, 0],
            (demo_ch CHANNEL_FROM_FD None 16 [])\<lparr>sent_eof := True\<rparr>,
            (demo_ch CHANNEL_TO_FD None 16 [])\<lparr>sent_eof := True, pending_close := True\<rparr>],
      nrch = 4, max_outgoing_msg = 4096,
      sendlog =
        [Frame_data \<lparr>msg = \<lparr>mtype = 40, mpad = 0, msize = 11\<rparr>, channel = 2\<rparr> [1, 2, 3],
         Frame_close \<lparr>msg = \<lparr>mtype = 42, mpad = 0, msize = 8\<rparr>, channel = 2\<rparr>,
         Frame_close \<lparr>msg = \<lparr>mtype = 42, mpad = 0, msize = 8\<rparr>, channel = 3\<rparr>]\<rparr>"

text \<open>
  A session of three channels whose only user channel is a source, given by its
  \<^verbatim>\<open>sent_eof\<close> flag, its fd handle and its buffered bytes, together with the bytes
  queued on \<^verbatim>\<open>TO_PEER\<close> and the log.
\<close>

definition demo_source :: "bool \<Rightarrow> nat option \<Rightarrow> byte list \<Rightarrow> byte list \<Rightarrow> frame list \<Rightarrow> fb_adb_sh" where
  "demo_source eof f bs out log =
     \<lparr>ch = [demo_ch CHANNEL_FROM_FD (Some 0) 64 [],
            demo_ch CHANNEL_TO_FD (Some 1) 64 out,
            (demo_ch CHANNEL_FROM_FD f 16 bs)\<lparr>sent_eof := eof\<rparr>],
      nrch = 3, max_outgoing_msg = 4096, sendlog = log\<rparr>"

section \<open>Properties\<close>

subsection \<open>Ring buffer and array access\<close>

lemma ringbuf_note_removed_Inr:
  "ringbuf_note_removed r n = Inr r' \<longleftrightarrow>
     n \<le> length (content r) \<and> r' = r\<lparr>content := drop n (content r)\<rparr>"
  by (auto simp: ringbuf_note_removed_def ringbuf_size_def)

lemma ringbuf_readable_iov_Inr:
  "ringbuf_readable_iov r n = Inr bs \<longleftrightarrow> n \<le> length (content r) \<and> bs = take n (content r)"
  by (auto simp: ringbuf_readable_iov_def ringbuf_size_def)

lemma ch_at_Inr: "ch_at sh i = Inr c \<longleftrightarrow> i < length (ch sh) \<and> c = ch sh ! i"
  by (auto simp: ch_at_def)

lemma ch_at_ch_set:
  "ch_at (ch_set sh i c) j =
     (if j < length (ch sh) then Inr (if j = i then c else ch sh ! j) else Inl Out_of_bounds)"
  by (simp add: ch_at_def ch_set_def nth_list_update)

lemma detect_msg_ring: "detect_msg r = Inr (r', found, mhdr) \<Longrightarrow> r' = r"
  by (auto simp: detect_msg_def Let_def split: if_splits sum.splits)

lemma ch_set_simps:
  "ch (ch_set sh i c) = (ch sh)[i := c]"
  "nrch (ch_set sh i c) = nrch sh"
  "max_outgoing_msg (ch_set sh i c) = max_outgoing_msg sh"
  "sendlog (ch_set sh i c) = sendlog sh"
  by (simp_all add: ch_set_def)

lemma peer_avail_ch_set:
  "peer_avail (ch_set sh i c) =
     (if i = 0 \<and> ch sh \<noteq> [] then length (content (rb c)) else peer_avail sh)"
  by (auto simp: peer_avail_def ch_at_def ch_set_simps FROM_PEER_def ringbuf_size_def nth_list_update)

lemma peer_avail_eq:
  "ch_at sh FROM_PEER = Inr c \<Longrightarrow> peer_avail sh = length (content (rb c))"
  by (simp add: peer_avail_def ringbuf_size_def)

subsection \<open>The drain loop terminates\<close>

text \<open>Every message handled takes at least eight bytes off the peer-receive ring.\<close>

lemma data_consumes:
  "fb_adb_sh_process_msg_channel_data sh m = Inr sh' \<Longrightarrow> peer_avail sh' \<le> peer_avail sh"
  unfolding fb_adb_sh_process_msg_channel_data_def Let_def
  by (auto simp: peer_avail_ch_set peer_avail_eq ch_at_ch_set ch_at_Inr ringbuf_note_removed_Inr NR_SPECIAL_CH_def FROM_PEER_def
      split: if_splits sum.splits)

lemma window_consumes:
  "fb_adb_sh_process_msg_channel_window sh m = Inr sh' \<Longrightarrow> peer_avail sh' = peer_avail sh"
  unfolding fb_adb_sh_process_msg_channel_window_def Let_def
  by (auto simp: peer_avail_ch_set NR_SPECIAL_CH_def
      split: if_splits sum.splits prod.splits)

lemma close_consumes:
  "fb_adb_sh_process_msg_channel_close sh m = Inr sh' \<Longrightarrow> peer_avail sh' = peer_avail sh"
  unfolding fb_adb_sh_process_msg_channel_close_def Let_def
  by (auto simp: peer_avail_ch_set NR_SPECIAL_CH_def
      split: if_splits sum.splits prod.splits)

lemma read_cmdmsg_consumes:
  "read_cmdmsg sh mhdr n = Inr (sh', bs) \<Longrightarrow> 0 < n \<Longrightarrow> peer_avail sh' < peer_avail sh"
  unfolding read_cmdmsg_def
  by (auto simp: peer_avail_ch_set peer_avail_eq ch_at_Inr ringbuf_note_removed_Inr FROM_PEER_def
      split: if_splits sum.splits)

lemma process_msg_consumes:
  "fb_adb_sh_process_msg sh mhdr = Inr sh' \<Longrightarrow> peer_avail sh' < peer_avail sh"
  unfolding fb_adb_sh_process_msg_def
  apply (auto split: if_splits sum.splits prod.splits dest!: data_consumes window_consumes close_consumes
     dest: read_cmdmsg_consumes simp: sizeof_msg_channel_window_def sizeof_msg_channel_close_def)
  apply (auto simp: peer_avail_ch_set peer_avail_eq ch_at_Inr ringbuf_note_removed_Inr FROM_PEER_def sizeof_msg_channel_data_def)
  done

termination drain_peer
  apply (relation "measure peer_avail")
   apply simp
  apply (auto dest!: detect_msg_ring process_msg_consumes simp: peer_avail_ch_set peer_avail_eq ch_at_Inr FROM_PEER_def)
  done

text \<open>The equation of the loop is unfolded by hand only.\<close>

declare drain_peer.simps [simp del]

subsection \<open>Message detection\<close>

lemma outstanding_iff_capacity:
  "ringbuf_wf r \<Longrightarrow> ringbuf_size r < n \<Longrightarrow>
     (n - ringbuf_size r > ringbuf_room r) \<longleftrightarrow> n > capacity r"
  by (auto simp: ringbuf_wf_def ringbuf_room_def ringbuf_size_def)

text \<open>
  C2. On a ring within its capacity, \<open>detect_msg\<close> reports no message when fewer than
  four bytes are readable. When the header is readable and the message is not yet
  complete, it dies with a protocol error exactly when the bytes outstanding exceed the
  room of the ring, which is exactly when the size in the header exceeds the capacity,
  and reports no message otherwise. When the whole message is readable it reports the
  header. Whenever it returns, the ring is as it was.
\<close>

theorem detect_msg_cases:
  assumes "ringbuf_wf r"
  shows
   "(ringbuf_size r < sizeof_msg \<longrightarrow> detect_msg r = Inr (r, False, zero_msg)) \<and>
    (sizeof_msg \<le> ringbuf_size r \<and> ringbuf_size r < unat (msize (peek_header r)) \<longrightarrow>
       (if unat (msize (peek_header r)) - ringbuf_size r > ringbuf_room r
        then detect_msg r = Inl (Proto_error ''impossibly large message: type:%u sz:%lu room:%lu'')
        else detect_msg r = Inr (r, False, peek_header r)) \<and>
       (unat (msize (peek_header r)) - ringbuf_size r > ringbuf_room r
          \<longleftrightarrow> unat (msize (peek_header r)) > capacity r)) \<and>
    (sizeof_msg \<le> ringbuf_size r \<and> unat (msize (peek_header r)) \<le> ringbuf_size r \<longrightarrow>
       detect_msg r = Inr (r, True, peek_header r)) \<and>
    (\<forall>r' found mhdr. detect_msg r = Inr (r', found, mhdr) \<longrightarrow> r' = r)"
proof -
  have small: "ringbuf_size r < sizeof_msg \<Longrightarrow> detect_msg r = Inr (r, False, zero_msg)"
    by (simp add: detect_msg_def)
  have peek: "sizeof_msg \<le> ringbuf_size r \<Longrightarrow>
      ringbuf_copy_out r sizeof_msg = Inr (take sizeof_msg (content r))"
    by (simp add: ringbuf_copy_out_def)
  have partial: "sizeof_msg \<le> ringbuf_size r \<Longrightarrow> ringbuf_size r < unat (msize (peek_header r)) \<Longrightarrow>
      detect_msg r =
        (if unat (msize (peek_header r)) - ringbuf_size r > ringbuf_room r
         then Inl (Proto_error ''impossibly large message: type:%u sz:%lu room:%lu'')
         else Inr (r, False, peek_header r))"
    by (simp add: detect_msg_def peek peek_header_def Let_def)
  have whole: "sizeof_msg \<le> ringbuf_size r \<Longrightarrow> unat (msize (peek_header r)) \<le> ringbuf_size r \<Longrightarrow>
      detect_msg r = Inr (r, True, peek_header r)"
    by (simp add: detect_msg_def peek peek_header_def Let_def)
  have cap: "ringbuf_size r < unat (msize (peek_header r)) \<Longrightarrow>
      (unat (msize (peek_header r)) - ringbuf_size r > ringbuf_room r
          \<longleftrightarrow> unat (msize (peek_header r)) > capacity r)"
    using assms by (rule outstanding_iff_capacity)
  have same: "\<forall>r' found mhdr. detect_msg r = Inr (r', found, mhdr) \<longrightarrow> r' = r"
    by (blast dest: detect_msg_ring)
  show ?thesis
    using small partial whole cap same by simp
qed

theorem detect_msg_cases_witness:
  "detect_msg \<lparr>capacity = 16, content = [40, 0]\<rparr>
     = Inr (\<lparr>capacity = 16, content = [40, 0]\<rparr>, False, zero_msg) \<and>
   detect_msg \<lparr>capacity = 16, content = [40, 0, 10, 0, 3, 0]\<rparr>
     = Inr (\<lparr>capacity = 16, content = [40, 0, 10, 0, 3, 0]\<rparr>, False,
            \<lparr>mtype = 40, mpad = 0, msize = 10\<rparr>) \<and>
   detect_msg \<lparr>capacity = 16, content = [40, 0, 17, 0, 3, 0]\<rparr>
     = Inl (Proto_error ''impossibly large message: type:%u sz:%lu room:%lu'') \<and>
   detect_msg \<lparr>capacity = 16, content = [40, 0, 8, 0, 3, 0, 0, 0, 9]\<rparr>
     = Inr (\<lparr>capacity = 16, content = [40, 0, 8, 0, 3, 0, 0, 0, 9]\<rparr>, True,
            \<lparr>mtype = 40, mpad = 0, msize = 8\<rparr>)"
  using detect_msg_cases [of "\<lparr>capacity = 16, content = [40, 0]\<rparr>"]
        detect_msg_cases [of "\<lparr>capacity = 16, content = [40, 0, 10, 0, 3, 0]\<rparr>"]
        detect_msg_cases [of "\<lparr>capacity = 16, content = [40, 0, 17, 0, 3, 0]\<rparr>"]
        detect_msg_cases [of "\<lparr>capacity = 16, content = [40, 0, 8, 0, 3, 0, 0, 0, 9]\<rparr>"]
  by (simp add: ringbuf_wf_def ringbuf_size_def ringbuf_room_def sizeof_msg_def peek_header_def
        msg_of_bytes_def le16_def)

subsection \<open>Received data\<close>

lemma detect_msg_True:
  "detect_msg r = Inr (r', True, mhdr) \<Longrightarrow>
     sizeof_msg \<le> length (content r) \<and> mhdr = peek_header r \<and> unat (msize mhdr) \<le> length (content r)"
  by (auto simp: detect_msg_def Let_def peek_header_def ringbuf_copy_out_def ringbuf_size_def
      split: if_splits sum.splits)

lemma process_data_short:
  assumes "ch sh \<noteq> []" "mtype mhdr = MSG_CHANNEL_DATA" "unat (msize mhdr) < sizeof_msg_channel_data"
  shows "fb_adb_sh_process_msg sh mhdr = Inl (Proto_error ''wrong msg size %u'')"
  using assms by (simp add: fb_adb_sh_process_msg_def ch_at_def FROM_PEER_def)

lemma process_data_step:
  assumes "ch sh \<noteq> []" "mtype mhdr = MSG_CHANNEL_DATA" "sizeof_msg_channel_data \<le> unat (msize mhdr)"
    and "sizeof_msg_channel_data \<le> length (content (rb (ch sh ! FROM_PEER)))"
  shows "fb_adb_sh_process_msg sh mhdr =
     fb_adb_sh_process_msg_channel_data (peer_consumed sh sizeof_msg_channel_data) (data_header sh)"
  using assms
  by (simp add: fb_adb_sh_process_msg_def ch_at_def FROM_PEER_def ringbuf_copy_out_def
      ringbuf_note_removed_def ringbuf_size_def peer_consumed_def data_header_def)


lemma peer_consumed_fields:
  "ch sh \<noteq> [] \<Longrightarrow> ch_at (peer_consumed sh n) FROM_PEER =
      Inr ((ch sh ! FROM_PEER)\<lparr>rb := (rb (ch sh ! FROM_PEER))\<lparr>content := drop n (content (rb (ch sh ! FROM_PEER)))\<rparr>\<rparr>)"
  "0 < i \<Longrightarrow> ch_at (peer_consumed sh n) i = ch_at sh i"
  "nrch (peer_consumed sh n) = nrch sh"
  "length (ch (peer_consumed sh n)) = length (ch sh)"
  "0 < i \<Longrightarrow> ch (peer_consumed sh n) ! i = ch sh ! i"
  by (auto simp: peer_consumed_def ch_at_def ch_set_def FROM_PEER_def)

lemma peer_consumed_twice:
  "ch sh \<noteq> [] \<Longrightarrow> peer_consumed (peer_consumed sh a) b = peer_consumed sh (a + b)"
  by (simp add: peer_consumed_def ch_set_def FROM_PEER_def add.commute)

lemma handler_data_invalid:
  assumes "ch sh \<noteq> []" "unat (channel m) \<le> NR_SPECIAL_CH \<or> unat (channel m) > nrch sh"
  shows "fb_adb_sh_process_msg_channel_data sh m = Inl (Proto_error ''data: invalid channel %d'')"
  using assms by (auto simp: fb_adb_sh_process_msg_channel_data_def ch_at_def FROM_PEER_def)

lemma handler_data_valid:
  assumes "ch sh \<noteq> []" "NR_SPECIAL_CH < unat (channel m)" "unat (channel m) \<le> nrch sh"
    and "unat (channel m) < length (ch sh)"
    and "sizeof_msg_channel_data \<le> unat (msize (msg m))"
    and "unat (msize (msg m)) - sizeof_msg_channel_data \<le> length (content (rb (ch sh ! FROM_PEER)))"
  shows "fb_adb_sh_process_msg_channel_data sh m =
     (let c = ch sh ! unat (channel m); p = unat (msize (msg m)) - sizeof_msg_channel_data in
      if dir c = CHANNEL_FROM_FD then Inl (Proto_error ''wrong channel direction ch=%u'')
      else if fdh c = None then Inr (peer_consumed sh p)
      else if ringbuf_room (rb c) < p then Inl (Proto_error ''window desync'')
      else Inr (peer_consumed
                 (ring_appended sh (unat (channel m)) (take p (content (rb (ch sh ! FROM_PEER))))) p))"
  using assms
  by (auto simp: fb_adb_sh_process_msg_channel_data_def ch_at_def FROM_PEER_def NR_SPECIAL_CH_def
      Let_def size_t_sub_def ringbuf_note_removed_def ringbuf_readable_iov_def ringbuf_size_def
      channel_write_def peer_consumed_def ring_appended_def ch_set_def ringbuf_room_def)


lemma data_header_msg:
  "sizeof_msg_channel_data \<le> length (content (rb (ch sh ! FROM_PEER))) \<Longrightarrow>
     msg (data_header sh) = peek_header (rb (ch sh ! FROM_PEER))"
  by (simp add: data_header_def msg_channel_data_of_bytes_def peek_header_def msg_of_bytes_def
      sizeof_msg_channel_data_def sizeof_msg_def)

text \<open>
  Received data on the channels of the array.
  Let \<open>mhdr\<close> be the header of a \<^verbatim>\<open>CHANNEL_DATA\<close> message that \<open>detect_msg\<close> found
  complete on the peer-receive ring of a session whose array holds \<^verbatim>\<open>nrch\<close> channels.
  If its size is below \<^verbatim>\<open>sizeof(msg_channel_data)\<close> the dispatcher dies with a protocol
  error. Otherwise, the eight bytes of the data header being consumed: a channel number
  outside \<^verbatim>\<open>(NR_SPECIAL_CH, nrch]\<close> is a protocol error; for a channel number that names
  a channel of the array, a target of direction \<^verbatim>\<open>FROM_FD\<close> is a protocol error; a target
  whose fd handle is gone has the payload taken off the peer-receive ring and nothing
  else changed; a target ring with less room than the payload is the protocol error
  "window desync"; and otherwise the payload is appended to the target ring and taken
  off the peer-receive ring.
\<close>

theorem process_msg_channel_data_cases:
  assumes len: "length (ch sh) = nrch sh"
    and cmdch: "ch_at sh FROM_PEER = Inr cmdch"
    and recv: "detect_msg (rb cmdch) = Inr (r, True, mhdr)"
    and data: "mtype mhdr = MSG_CHANNEL_DATA"
  shows
   "(unat (msize mhdr) < sizeof_msg_channel_data \<longrightarrow>
       fb_adb_sh_process_msg sh mhdr = Inl (Proto_error ''wrong msg size %u'')) \<and>
    (sizeof_msg_channel_data \<le> unat (msize mhdr) \<longrightarrow>
       (data_channel sh \<le> NR_SPECIAL_CH \<or> data_channel sh > nrch sh \<longrightarrow>
          fb_adb_sh_process_msg sh mhdr = Inl (Proto_error ''data: invalid channel %d'')) \<and>
       (NR_SPECIAL_CH < data_channel sh \<and> data_channel sh < nrch sh \<longrightarrow>
          (dir (ch sh ! data_channel sh) = CHANNEL_FROM_FD \<longrightarrow>
             fb_adb_sh_process_msg sh mhdr = Inl (Proto_error ''wrong channel direction ch=%u'')) \<and>
          (dir (ch sh ! data_channel sh) = CHANNEL_TO_FD \<and> fdh (ch sh ! data_channel sh) = None \<longrightarrow>
             fb_adb_sh_process_msg sh mhdr =
               Inr (peer_consumed sh (sizeof_msg_channel_data + data_payloadsz mhdr))) \<and>
          (dir (ch sh ! data_channel sh) = CHANNEL_TO_FD \<and> fdh (ch sh ! data_channel sh) \<noteq> None \<and>
           ringbuf_room (rb (ch sh ! data_channel sh)) < data_payloadsz mhdr \<longrightarrow>
             fb_adb_sh_process_msg sh mhdr = Inl (Proto_error ''window desync'')) \<and>
          (dir (ch sh ! data_channel sh) = CHANNEL_TO_FD \<and> fdh (ch sh ! data_channel sh) \<noteq> None \<and>
           data_payloadsz mhdr \<le> ringbuf_room (rb (ch sh ! data_channel sh)) \<longrightarrow>
             fb_adb_sh_process_msg sh mhdr =
               Inr (peer_consumed (ring_appended sh (data_channel sh) (data_payload sh mhdr))
                      (sizeof_msg_channel_data + data_payloadsz mhdr)))))"
proof -
  from cmdch have ne: "ch sh \<noteq> []" and c0: "cmdch = ch sh ! FROM_PEER"
    by (auto simp: ch_at_def split: if_splits)
  from detect_msg_True [OF recv] c0
  have hdr: "mhdr = peek_header (rb (ch sh ! FROM_PEER))"
    and avail: "unat (msize mhdr) \<le> length (content (rb (ch sh ! FROM_PEER)))"
    by blast+
  have short: "unat (msize mhdr) < sizeof_msg_channel_data \<Longrightarrow>
      fb_adb_sh_process_msg sh mhdr = Inl (Proto_error ''wrong msg size %u'')"
    using ne data by (rule process_data_short)
  {
    assume big: "sizeof_msg_channel_data \<le> unat (msize mhdr)"
    let ?sh0 = "peer_consumed sh sizeof_msg_channel_data"
    let ?m = "data_header sh"
    from big avail have eight: "sizeof_msg_channel_data \<le> length (content (rb (ch sh ! FROM_PEER)))"
      by simp
    have step: "fb_adb_sh_process_msg sh mhdr = fb_adb_sh_process_msg_channel_data ?sh0 ?m"
      using ne data big eight by (rule process_data_step)
    have m: "msg ?m = mhdr"
      using data_header_msg [OF eight] hdr by simp
    have ne0: "ch ?sh0 \<noteq> []"
      using ne peer_consumed_fields(4) [of sh sizeof_msg_channel_data] by auto
    have invalid: "data_channel sh \<le> NR_SPECIAL_CH \<or> data_channel sh > nrch sh \<Longrightarrow>
        fb_adb_sh_process_msg sh mhdr = Inl (Proto_error ''data: invalid channel %d'')"
      unfolding step data_channel_def
      by (rule handler_data_invalid [OF ne0]) (simp add: peer_consumed_fields)
    {
      assume rng: "NR_SPECIAL_CH < data_channel sh" "data_channel sh < nrch sh"
      then have pos: "0 < data_channel sh" by simp
      have content0: "content (rb (ch ?sh0 ! FROM_PEER)) =
          drop sizeof_msg_channel_data (content (rb (ch sh ! FROM_PEER)))"
        using ne by (simp add: peer_consumed_def ch_set_def FROM_PEER_def)
      have valid: "fb_adb_sh_process_msg sh mhdr =
        (let c = ch sh ! data_channel sh; p = data_payloadsz mhdr in
         if dir c = CHANNEL_FROM_FD then Inl (Proto_error ''wrong channel direction ch=%u'')
         else if fdh c = None then Inr (peer_consumed ?sh0 p)
         else if ringbuf_room (rb c) < p then Inl (Proto_error ''window desync'')
         else Inr (peer_consumed (ring_appended ?sh0 (data_channel sh) (data_payload sh mhdr)) p))"
        unfolding step
        apply (subst handler_data_valid [OF ne0])
        using rng len big avail pos
        by (simp_all add: data_channel_def m peer_consumed_fields content0
            data_payloadsz_def data_payload_def Let_def)
      have swap: "ring_appended ?sh0 (data_channel sh) bs =
          peer_consumed (ring_appended sh (data_channel sh) bs) sizeof_msg_channel_data" for bs
        using pos ne
        by (simp add: ring_appended_def peer_consumed_def ch_set_def FROM_PEER_def list_update_swap)
      have ne1: "ch (ring_appended sh (data_channel sh) bs) \<noteq> []" for bs
        using ne by (simp add: ring_appended_def ch_set_def)
      note valid [unfolded swap peer_consumed_twice [OF ne] peer_consumed_twice [OF ne1]]
    }
    note this invalid
  }
  note big = this
  show ?thesis
    using short big
    by (auto simp: Let_def dest: channel_direction.exhaust)
qed


lemmas demo_defs = demo_sh_def demo_ch_def detect_msg_def ringbuf_size_def ringbuf_room_def
  ringbuf_copy_out_def sizeof_msg_def sizeof_msg_channel_data_def msg_of_bytes_def le16_def le32_def
  ch_at_def FROM_PEER_def NR_SPECIAL_CH_def MSG_CHANNEL_DATA_def data_channel_def data_header_def
  msg_channel_data_of_bytes_def data_payloadsz_def data_payload_def peer_consumed_def
  ring_appended_def ch_set_def

theorem process_msg_channel_data_cases_witness:
  "fb_adb_sh_process_msg (demo_sh [40, 0, 5, 0, 9] []) \<lparr>mtype = 40, mpad = 0, msize = 5\<rparr>
     = Inl (Proto_error ''wrong msg size %u'') \<and>
   fb_adb_sh_process_msg (demo_sh [40, 0, 8, 0, 1, 0, 0, 0] []) \<lparr>mtype = 40, mpad = 0, msize = 8\<rparr>
     = Inl (Proto_error ''data: invalid channel %d'') \<and>
   fb_adb_sh_process_msg (demo_sh [40, 0, 8, 0, 2, 0, 0, 0] []) \<lparr>mtype = 40, mpad = 0, msize = 8\<rparr>
     = Inl (Proto_error ''wrong channel direction ch=%u'') \<and>
   fb_adb_sh_process_msg (demo_sh [40, 0, 10, 0, 4, 0, 0, 0, 7, 7, 99] [])
       \<lparr>mtype = 40, mpad = 0, msize = 10\<rparr>
     = Inr (demo_sh [99] []) \<and>
   fb_adb_sh_process_msg (demo_sh [40, 0, 13, 0, 3, 0, 0, 0, 1, 2, 3, 4, 5] [])
       \<lparr>mtype = 40, mpad = 0, msize = 13\<rparr>
     = Inl (Proto_error ''window desync'') \<and>
   fb_adb_sh_process_msg (demo_sh [40, 0, 10, 0, 3, 0, 0, 0, 7, 7, 99] [6])
       \<lparr>mtype = 40, mpad = 0, msize = 10\<rparr>
     = Inr (demo_sh [99] [6, 7, 7])"
  using
    process_msg_channel_data_cases [of "demo_sh [40, 0, 5, 0, 9] []"
      "demo_ch CHANNEL_FROM_FD (Some 0) 64 [40, 0, 5, 0, 9]"
      "\<lparr>capacity = 64, content = [40, 0, 5, 0, 9]\<rparr>" "\<lparr>mtype = 40, mpad = 0, msize = 5\<rparr>"]
    process_msg_channel_data_cases [of "demo_sh [40, 0, 8, 0, 1, 0, 0, 0] []"
      "demo_ch CHANNEL_FROM_FD (Some 0) 64 [40, 0, 8, 0, 1, 0, 0, 0]"
      "\<lparr>capacity = 64, content = [40, 0, 8, 0, 1, 0, 0, 0]\<rparr>" "\<lparr>mtype = 40, mpad = 0, msize = 8\<rparr>"]
    process_msg_channel_data_cases [of "demo_sh [40, 0, 8, 0, 2, 0, 0, 0] []"
      "demo_ch CHANNEL_FROM_FD (Some 0) 64 [40, 0, 8, 0, 2, 0, 0, 0]"
      "\<lparr>capacity = 64, content = [40, 0, 8, 0, 2, 0, 0, 0]\<rparr>" "\<lparr>mtype = 40, mpad = 0, msize = 8\<rparr>"]
    process_msg_channel_data_cases [of "demo_sh [40, 0, 10, 0, 4, 0, 0, 0, 7, 7, 99] []"
      "demo_ch CHANNEL_FROM_FD (Some 0) 64 [40, 0, 10, 0, 4, 0, 0, 0, 7, 7, 99]"
      "\<lparr>capacity = 64, content = [40, 0, 10, 0, 4, 0, 0, 0, 7, 7, 99]\<rparr>"
      "\<lparr>mtype = 40, mpad = 0, msize = 10\<rparr>"]
    process_msg_channel_data_cases [of "demo_sh [40, 0, 13, 0, 3, 0, 0, 0, 1, 2, 3, 4, 5] []"
      "demo_ch CHANNEL_FROM_FD (Some 0) 64 [40, 0, 13, 0, 3, 0, 0, 0, 1, 2, 3, 4, 5]"
      "\<lparr>capacity = 64, content = [40, 0, 13, 0, 3, 0, 0, 0, 1, 2, 3, 4, 5]\<rparr>"
      "\<lparr>mtype = 40, mpad = 0, msize = 13\<rparr>"]
    process_msg_channel_data_cases [of "demo_sh [40, 0, 10, 0, 3, 0, 0, 0, 7, 7, 99] [6]"
      "demo_ch CHANNEL_FROM_FD (Some 0) 64 [40, 0, 10, 0, 3, 0, 0, 0, 7, 7, 99]"
      "\<lparr>capacity = 64, content = [40, 0, 10, 0, 3, 0, 0, 0, 7, 7, 99]\<rparr>"
      "\<lparr>mtype = 40, mpad = 0, msize = 10\<rparr>"]
  by (simp add: demo_defs)

subsection \<open>Received window and close messages\<close>

lemma SATADD_exact:
  "unat a + unat b \<le> 2 ^ 32 - 1 \<Longrightarrow> SATADD a b = (False, a + b) \<and> unat (a + b) = unat a + unat b"
  by (simp add: SATADD_def unat_word_ariths)

lemma SATADD_overflow:
  "unat a + unat b > 2 ^ 32 - 1 \<Longrightarrow> fst (SATADD a b)"
  by (simp add: SATADD_def)

text \<open>
  A window message for a channel of the array.
  In a session whose array holds \<^verbatim>\<open>nrch\<close> channels, let a \<^verbatim>\<open>CHANNEL_WINDOW\<close>
  message name a channel of the array above \<^verbatim>\<open>NR_SPECIAL_CH\<close>. A target of direction
  \<^verbatim>\<open>TO_FD\<close> is a protocol error. A target of direction \<^verbatim>\<open>FROM_FD\<close> whose fd handle
  is gone leaves the state as it is. A target of direction \<^verbatim>\<open>FROM_FD\<close> with an fd
  handle gets the window \<open>window + window_delta\<close>, which is the sum of the two numbers,
  when that sum is at most \<open>2^32 - 1\<close>, and the handler dies with the protocol error
  "window overflow" when the sum is larger.
\<close>

theorem process_msg_channel_window_cases:
  assumes len: "length (ch sh) = nrch sh"
    and rng: "NR_SPECIAL_CH < unat (channel m)" "unat (channel m) < nrch sh"
  shows
   "(dir (ch sh ! unat (channel m)) = CHANNEL_TO_FD \<longrightarrow>
       fb_adb_sh_process_msg_channel_window sh m = Inl (Proto_error ''wrong channel direction'')) \<and>
    (dir (ch sh ! unat (channel m)) = CHANNEL_FROM_FD \<and> fdh (ch sh ! unat (channel m)) = None \<longrightarrow>
       fb_adb_sh_process_msg_channel_window sh m = Inr sh) \<and>
    (dir (ch sh ! unat (channel m)) = CHANNEL_FROM_FD \<and> fdh (ch sh ! unat (channel m)) \<noteq> None \<and>
     unat (window (ch sh ! unat (channel m))) + unat (window_delta m) \<le> 2 ^ 32 - 1 \<longrightarrow>
       fb_adb_sh_process_msg_channel_window sh m =
         Inr (ch_set sh (unat (channel m))
               ((ch sh ! unat (channel m))
                  \<lparr>window := window (ch sh ! unat (channel m)) + window_delta m\<rparr>)) \<and>
       unat (window (ch sh ! unat (channel m)) + window_delta m) =
         unat (window (ch sh ! unat (channel m))) + unat (window_delta m)) \<and>
    (dir (ch sh ! unat (channel m)) = CHANNEL_FROM_FD \<and> fdh (ch sh ! unat (channel m)) \<noteq> None \<and>
     unat (window (ch sh ! unat (channel m))) + unat (window_delta m) > 2 ^ 32 - 1 \<longrightarrow>
       fb_adb_sh_process_msg_channel_window sh m = Inl (Proto_error ''window overflow!?''))"
proof -
  let ?c = "ch sh ! unat (channel m)"
  have at: "ch_at sh (unat (channel m)) = Inr ?c"
    using len rng by (simp add: ch_at_def)
  have body: "fb_adb_sh_process_msg_channel_window sh m =
      (if dir ?c = CHANNEL_TO_FD then Inl (Proto_error ''wrong channel direction'')
       else if fdh ?c = None then Inr sh
       else case SATADD (window ?c) (window_delta m) of
              (overflow, w) \<Rightarrow>
                if overflow then Inl (Proto_error ''window overflow!?'')
                else Inr (ch_set sh (unat (channel m)) (?c\<lparr>window := w\<rparr>)))"
    using rng by (simp add: fb_adb_sh_process_msg_channel_window_def at)
  have to_fd: "dir ?c = CHANNEL_TO_FD \<Longrightarrow>
      fb_adb_sh_process_msg_channel_window sh m = Inl (Proto_error ''wrong channel direction'')"
    by (simp add: body)
  have closed: "dir ?c = CHANNEL_FROM_FD \<Longrightarrow> fdh ?c = None \<Longrightarrow>
      fb_adb_sh_process_msg_channel_window sh m = Inr sh"
    by (simp add: body)
  have exact: "dir ?c = CHANNEL_FROM_FD \<Longrightarrow> fdh ?c \<noteq> None \<Longrightarrow>
      unat (window ?c) + unat (window_delta m) \<le> 2 ^ 32 - 1 \<Longrightarrow>
      fb_adb_sh_process_msg_channel_window sh m =
         Inr (ch_set sh (unat (channel m)) (?c\<lparr>window := window ?c + window_delta m\<rparr>)) \<and>
      unat (window ?c + window_delta m) = unat (window ?c) + unat (window_delta m)"
    using SATADD_exact [of "window ?c" "window_delta m"] by (auto simp: body)
  have over: "dir ?c = CHANNEL_FROM_FD \<Longrightarrow> fdh ?c \<noteq> None \<Longrightarrow>
      unat (window ?c) + unat (window_delta m) > 2 ^ 32 - 1 \<Longrightarrow>
      fb_adb_sh_process_msg_channel_window sh m = Inl (Proto_error ''window overflow!?'')"
    using SATADD_overflow [of "window ?c" "window_delta m"]
    by (auto simp: body split: prod.splits)
  show ?thesis
    using to_fd closed exact over by blast
qed

text \<open>
  A close message for a channel of the array.
  In a session whose array holds \<^verbatim>\<open>nrch\<close> channels, the handler of
  \<^verbatim>\<open>CHANNEL_CLOSE\<close> returns the state unchanged, without an error, for a channel number
  outside \<^verbatim>\<open>(NR_SPECIAL_CH, nrch]\<close>. For a channel number above \<^verbatim>\<open>NR_SPECIAL_CH\<close>
  that names a channel of the array it sets \<^verbatim>\<open>sent_eof\<close> of that channel and closes
  it: the fd handle is released, and the ring buffer and every other field and channel
  stay as they are.
\<close>

theorem process_msg_channel_close_cases:
  assumes len: "length (ch sh) = nrch sh"
  shows
   "(unat (channel m) \<le> NR_SPECIAL_CH \<or> unat (channel m) > nrch sh \<longrightarrow>
       fb_adb_sh_process_msg_channel_close sh m = Inr sh) \<and>
    (NR_SPECIAL_CH < unat (channel m) \<and> unat (channel m) < nrch sh \<longrightarrow>
       fb_adb_sh_process_msg_channel_close sh m =
         Inr (ch_set sh (unat (channel m))
               ((ch sh ! unat (channel m))\<lparr>sent_eof := True, fdh := None\<rparr>)))"
  using len
  by (auto simp: fb_adb_sh_process_msg_channel_close_def ch_at_def channel_close_def)

subsection \<open>Window and close: evaluation\<close>

lemmas demo_handler_defs = demo_sh_def demo_ch_def demo_window_def ch_set_def ch_at_def
  NR_SPECIAL_CH_def FROM_PEER_def

theorem process_msg_channel_window_cases_witness:
  "fb_adb_sh_process_msg_channel_window (demo_window 10)
       \<lparr>msg = \<lparr>mtype = 41, mpad = 0, msize = 12\<rparr>, channel = 3, window_delta = 5\<rparr>
     = Inl (Proto_error ''wrong channel direction'') \<and>
   fb_adb_sh_process_msg_channel_window (demo_window 10)
       \<lparr>msg = \<lparr>mtype = 41, mpad = 0, msize = 12\<rparr>, channel = 5, window_delta = 5\<rparr>
     = Inr (demo_window 10) \<and>
   fb_adb_sh_process_msg_channel_window (demo_window 10)
       \<lparr>msg = \<lparr>mtype = 41, mpad = 0, msize = 12\<rparr>, channel = 2, window_delta = 5\<rparr>
     = Inr (demo_window 15) \<and>
   fb_adb_sh_process_msg_channel_window (demo_window 4294967295)
       \<lparr>msg = \<lparr>mtype = 41, mpad = 0, msize = 12\<rparr>, channel = 2, window_delta = 1\<rparr>
     = Inl (Proto_error ''window overflow!?'')"
  using
    process_msg_channel_window_cases [of "demo_window 10"
      "\<lparr>msg = \<lparr>mtype = 41, mpad = 0, msize = 12\<rparr>, channel = 3, window_delta = 5\<rparr>"]
    process_msg_channel_window_cases [of "demo_window 10"
      "\<lparr>msg = \<lparr>mtype = 41, mpad = 0, msize = 12\<rparr>, channel = 5, window_delta = 5\<rparr>"]
    process_msg_channel_window_cases [of "demo_window 10"
      "\<lparr>msg = \<lparr>mtype = 41, mpad = 0, msize = 12\<rparr>, channel = 2, window_delta = 5\<rparr>"]
    process_msg_channel_window_cases [of "demo_window 4294967295"
      "\<lparr>msg = \<lparr>mtype = 41, mpad = 0, msize = 12\<rparr>, channel = 2, window_delta = 1\<rparr>"]
  by (simp add: demo_handler_defs)

theorem process_msg_channel_close_cases_witness:
  "fb_adb_sh_process_msg_channel_close (demo_sh [] [])
       \<lparr>msg = \<lparr>mtype = 42, mpad = 0, msize = 8\<rparr>, channel = 1\<rparr>
     = Inr (demo_sh [] []) \<and>
   fb_adb_sh_process_msg_channel_close (demo_sh [] [])
       \<lparr>msg = \<lparr>mtype = 42, mpad = 0, msize = 8\<rparr>, channel = 7\<rparr>
     = Inr (demo_sh [] []) \<and>
   fb_adb_sh_process_msg_channel_close (demo_sh [] [])
       \<lparr>msg = \<lparr>mtype = 42, mpad = 0, msize = 8\<rparr>, channel = 2\<rparr>
     = Inr (ch_set (demo_sh [] []) 2
             \<lparr>dir = CHANNEL_FROM_FD, fdh = None, rb = \<lparr>capacity = 16, content = [1, 2, 3]\<rparr>,
              window = 0, bytes_written = 0, sent_eof = True, pending_close = False\<rparr>)"
  using
    process_msg_channel_close_cases [of "demo_sh [] []"
      "\<lparr>msg = \<lparr>mtype = 42, mpad = 0, msize = 8\<rparr>, channel = 1\<rparr>"]
    process_msg_channel_close_cases [of "demo_sh [] []"
      "\<lparr>msg = \<lparr>mtype = 42, mpad = 0, msize = 8\<rparr>, channel = 7\<rparr>"]
    process_msg_channel_close_cases [of "demo_sh [] []"
      "\<lparr>msg = \<lparr>mtype = 42, mpad = 0, msize = 8\<rparr>, channel = 2\<rparr>"]
  by (simp add: demo_handler_defs)

subsection \<open>The channel number \<open>nrch\<close>\<close>

text \<open>
  The three handlers accept a channel number equal to \<^verbatim>\<open>nrch\<close>, and then read
  \<^verbatim>\<open>sh->ch[nrch]\<close>, which is past the last of the \<^verbatim>\<open>nrch\<close> channels.
\<close>

lemma channel_nrch_passes_check:
  assumes "length (ch sh) = nrch sh" "NR_SPECIAL_CH < nrch sh" "unat (channel m) = nrch sh"
  shows "fb_adb_sh_process_msg_channel_data sh m = Inl Out_of_bounds"
    and "fb_adb_sh_process_msg_channel_close sh m = Inl Out_of_bounds"
  using assms
  by (auto simp: fb_adb_sh_process_msg_channel_data_def fb_adb_sh_process_msg_channel_close_def
      ch_at_def FROM_PEER_def NR_SPECIAL_CH_def)

lemma channel_nrch_passes_check_window:
  assumes "length (ch sh) = nrch sh" "NR_SPECIAL_CH < nrch sh" "unat (channel m) = nrch sh"
  shows "fb_adb_sh_process_msg_channel_window sh m = Inl Out_of_bounds"
  using assms
  by (auto simp: fb_adb_sh_process_msg_channel_window_def ch_at_def NR_SPECIAL_CH_def)

text \<open>
  C10. The claim is that every channel number the range check of the three handlers
  accepts, \<^verbatim>\<open>nrch\<close> included, indexes the array of \<^verbatim>\<open>nrch\<close> channels within
  bounds. In the session of six channels, the channel number 6 passes the check of each
  handler, and the read of \<^verbatim>\<open>sh->ch[6]\<close> that follows is outside the array.
\<close>

theorem channel_nrch_out_of_bounds:
  "length (ch (demo_sh [] [])) = nrch (demo_sh [] []) \<and>
   fb_adb_sh_process_msg_channel_data (demo_sh [] [])
       \<lparr>msg = \<lparr>mtype = 40, mpad = 0, msize = 8\<rparr>, channel = 6\<rparr> = Inl Out_of_bounds \<and>
   fb_adb_sh_process_msg_channel_window (demo_sh [] [])
       \<lparr>msg = \<lparr>mtype = 41, mpad = 0, msize = 12\<rparr>, channel = 6, window_delta = 1\<rparr>
     = Inl Out_of_bounds \<and>
   fb_adb_sh_process_msg_channel_close (demo_sh [] [])
       \<lparr>msg = \<lparr>mtype = 42, mpad = 0, msize = 8\<rparr>, channel = 6\<rparr> = Inl Out_of_bounds \<and>
   fb_adb_sh_process_msg (demo_sh [40, 0, 8, 0, 6, 0, 0, 0] [])
       \<lparr>mtype = 40, mpad = 0, msize = 8\<rparr> = Inl Out_of_bounds"
  by (simp add: fb_adb_sh_process_msg_channel_data_def fb_adb_sh_process_msg_channel_close_def
      fb_adb_sh_process_msg_channel_window_def fb_adb_sh_process_msg_def demo_handler_defs
      MSG_CHANNEL_DATA_def sizeof_msg_channel_data_def ringbuf_copy_out_def ringbuf_size_def
      ringbuf_note_removed_def msg_channel_data_of_bytes_def msg_of_bytes_def le16_def le32_def)

text \<open>
  C1. The claim gives every received \<^verbatim>\<open>CHANNEL_DATA\<close> message whose channel number lies
  in \<^verbatim>\<open>(NR_SPECIAL_CH, nrch]\<close> one of four outcomes on its target channel: a protocol
  error for a target of direction \<^verbatim>\<open>FROM_FD\<close>, the payload dropped for a target whose
  fd handle is gone, the protocol error "window desync", or the payload spliced into the
  target ring. In the session of six channels, a \<^verbatim>\<open>CHANNEL_DATA\<close> message of ten bytes
  for channel 6, complete on the peer-receive ring, has a size of at least
  \<^verbatim>\<open>sizeof(msg_channel_data)\<close> and a channel number equal to \<^verbatim>\<open>nrch\<close>, inside the
  range; the dispatcher then reads \<^verbatim>\<open>sh->ch[6]\<close>, outside the array of six channels,
  which is none of the four outcomes.
\<close>

theorem data_channel_nrch_out_of_bounds:
  "length (ch (demo_sh [40, 0, 10, 0, 6, 0, 0, 0, 7, 7] []))
     = nrch (demo_sh [40, 0, 10, 0, 6, 0, 0, 0, 7, 7] []) \<and>
   detect_msg (rb (ch (demo_sh [40, 0, 10, 0, 6, 0, 0, 0, 7, 7] []) ! FROM_PEER))
     = Inr (rb (ch (demo_sh [40, 0, 10, 0, 6, 0, 0, 0, 7, 7] []) ! FROM_PEER), True,
            \<lparr>mtype = MSG_CHANNEL_DATA, mpad = 0, msize = 10\<rparr>) \<and>
   sizeof_msg_channel_data \<le> unat (10 :: 16 word) \<and>
   NR_SPECIAL_CH < data_channel (demo_sh [40, 0, 10, 0, 6, 0, 0, 0, 7, 7] []) \<and>
   data_channel (demo_sh [40, 0, 10, 0, 6, 0, 0, 0, 7, 7] [])
     = nrch (demo_sh [40, 0, 10, 0, 6, 0, 0, 0, 7, 7] []) \<and>
   fb_adb_sh_process_msg (demo_sh [40, 0, 10, 0, 6, 0, 0, 0, 7, 7] [])
       \<lparr>mtype = MSG_CHANNEL_DATA, mpad = 0, msize = 10\<rparr> = Inl Out_of_bounds"
  by (simp add: fb_adb_sh_process_msg_def fb_adb_sh_process_msg_channel_data_def demo_defs
      ringbuf_note_removed_def)

text \<open>
  C7. The claim gives every received \<^verbatim>\<open>CHANNEL_WINDOW\<close> message whose channel number
  lies in \<^verbatim>\<open>(NR_SPECIAL_CH, nrch]\<close> one of four outcomes on its target channel: a
  protocol error for a target of direction \<^verbatim>\<open>TO_FD\<close>, no change for a closed target,
  the window increased by \<^verbatim>\<open>window_delta\<close>, or the protocol error "window overflow". In
  the session of six channels, a \<^verbatim>\<open>CHANNEL_WINDOW\<close> message for channel 6, a channel
  number equal to \<^verbatim>\<open>nrch\<close> and inside the range, makes the handler read
  \<^verbatim>\<open>sh->ch[6]\<close>, outside the array of six channels; so does the dispatcher on the
  twelve bytes of that message.
\<close>

theorem window_channel_nrch_out_of_bounds:
  "length (ch (demo_window 10)) = nrch (demo_window 10) \<and>
   NR_SPECIAL_CH < unat (6 :: 32 word) \<and> unat (6 :: 32 word) = nrch (demo_window 10) \<and>
   fb_adb_sh_process_msg_channel_window (demo_window 10)
       \<lparr>msg = \<lparr>mtype = MSG_CHANNEL_WINDOW, mpad = 0, msize = 12\<rparr>, channel = 6, window_delta = 5\<rparr>
     = Inl Out_of_bounds \<and>
   fb_adb_sh_process_msg
       (ch_set (demo_window 10) FROM_PEER
          (demo_ch CHANNEL_FROM_FD (Some 0) 64 [41, 0, 12, 0, 6, 0, 0, 0, 5, 0, 0, 0]))
       \<lparr>mtype = MSG_CHANNEL_WINDOW, mpad = 0, msize = 12\<rparr> = Inl Out_of_bounds"
  by (simp add: fb_adb_sh_process_msg_def fb_adb_sh_process_msg_channel_window_def read_cmdmsg_def
      demo_handler_defs MSG_CHANNEL_DATA_def MSG_CHANNEL_WINDOW_def sizeof_msg_channel_window_def
      ringbuf_copy_out_def ringbuf_size_def ringbuf_note_removed_def
      msg_channel_window_of_bytes_def msg_channel_data_of_bytes_def msg_of_bytes_def
      le16_def le32_def)

text \<open>
  C8. The claim has the handler of \<^verbatim>\<open>CHANNEL_CLOSE\<close> set \<^verbatim>\<open>sent_eof\<close> of the target
  channel and close it for every channel number in \<^verbatim>\<open>(NR_SPECIAL_CH, nrch]\<close>. In the
  session of six channels, a \<^verbatim>\<open>CHANNEL_CLOSE\<close> message for channel 6, a channel number
  equal to \<^verbatim>\<open>nrch\<close> and inside the range, makes the handler read \<^verbatim>\<open>sh->ch[6]\<close>,
  outside the array of six channels: no channel has its flag set or its fd released. So
  does the dispatcher on the eight bytes of that message.
\<close>

theorem close_channel_nrch_out_of_bounds:
  "length (ch (demo_sh [42, 0, 8, 0, 6, 0, 0, 0] []))
     = nrch (demo_sh [42, 0, 8, 0, 6, 0, 0, 0] []) \<and>
   NR_SPECIAL_CH < unat (6 :: 32 word) \<and>
   unat (6 :: 32 word) = nrch (demo_sh [42, 0, 8, 0, 6, 0, 0, 0] []) \<and>
   fb_adb_sh_process_msg_channel_close (demo_sh [42, 0, 8, 0, 6, 0, 0, 0] [])
       \<lparr>msg = \<lparr>mtype = MSG_CHANNEL_CLOSE, mpad = 0, msize = 8\<rparr>, channel = 6\<rparr>
     = Inl Out_of_bounds \<and>
   fb_adb_sh_process_msg (demo_sh [42, 0, 8, 0, 6, 0, 0, 0] [])
       \<lparr>mtype = MSG_CHANNEL_CLOSE, mpad = 0, msize = 8\<rparr> = Inl Out_of_bounds"
  by (simp add: fb_adb_sh_process_msg_def fb_adb_sh_process_msg_channel_close_def read_cmdmsg_def
      demo_handler_defs MSG_CHANNEL_DATA_def MSG_CHANNEL_WINDOW_def MSG_CHANNEL_CLOSE_def
      sizeof_msg_channel_close_def
      ringbuf_copy_out_def ringbuf_size_def ringbuf_note_removed_def
      msg_channel_data_of_bytes_def msg_of_bytes_def le16_def le32_def)

subsection \<open>Framing data\<close>

lemma length_bytes_of_msg_channel_data [simp]: "length (bytes_of_msg_channel_data m) = 8"
  by (simp add: bytes_of_msg_channel_data_def bytes_of_msg_def bytes_le16_def bytes_le32_def)

lemma length_bytes_of_msg_channel_window [simp]: "length (bytes_of_msg_channel_window m) = 12"
  by (simp add: bytes_of_msg_channel_window_def bytes_of_msg_def bytes_le16_def bytes_le32_def)

lemma fb_adb_maxoutmsg_eq:
  "TO_PEER < length (ch sh) \<Longrightarrow> fb_adb_maxoutmsg sh = Inr (out_budget sh)"
  by (simp add: fb_adb_maxoutmsg_def ch_at_def out_budget_def)

lemma send_frame_Inr:
  "send_frame f sh = Inr sh' \<longleftrightarrow>
     TO_PEER < length (ch sh) \<and> length (frame_bytes f) \<le> ringbuf_room (rb (ch sh ! TO_PEER)) \<and>
     sh' = framed f sh"
  by (auto simp: send_frame_def ch_at_def channel_write_def framed_def ring_appended_def
      split: sum.splits if_splits)

lemma framed_fields:
  "length (ch (framed f sh)) = length (ch sh)"
  "nrch (framed f sh) = nrch sh"
  "max_outgoing_msg (framed f sh) = max_outgoing_msg sh"
  "sendlog (framed f sh) = sendlog sh @ [f]"
  "i \<noteq> TO_PEER \<Longrightarrow> ch (framed f sh) ! i = ch sh ! i"
  by (simp_all add: framed_def ring_appended_def ch_set_def)

lemma unat_word16: "n < 65536 \<Longrightarrow> unat (word_of_nat n :: 16 word) = n"
  by (simp add: unat_of_nat)

lemma xmit_data_run:
  assumes "ch_at sh chno = Inr c" "dir c = CHANNEL_FROM_FD" "fb_adb_maxoutmsg sh = Inr b"
    and "sizeof_msg_channel_data < b" "0 < ringbuf_size (rb c)"
    and "p = min (ringbuf_size (rb c)) (b - sizeof_msg_channel_data)"
    and "ringbuf_readable_iov (rb c) p = Inr iov" "chno \<noteq> 0"
    and "send_frame
           (Frame_data
              \<lparr>msg = \<lparr>mtype = MSG_CHANNEL_DATA, mpad = 0,
                       msize = word_of_nat (sizeof_msg_channel_data + length iov)\<rparr>,
               channel = word_of_nat chno\<rparr> iov) sh = Inr sh1"
    and "ch_at sh1 chno = Inr c1" "ringbuf_note_removed (rb c1) p = Inr r"
  shows "xmit_data chno sh = Inr (ch_set sh1 chno (c1\<lparr>rb := r\<rparr>))"
  using assms by (simp add: xmit_data_def Let_def)

text \<open>
  C6, as amended. Let \<open>chno\<close> be a user channel of direction \<^verbatim>\<open>FROM_FD\<close> whose ring is
  not empty, and let the budget be the smaller of \<^verbatim>\<open>max_outgoing_msg\<close> and the room of
  the \<^verbatim>\<open>TO_PEER\<close> ring. If the budget exceeds \<^verbatim>\<open>sizeof(msg_channel_data)\<close>, then
  \<open>xmit_data\<close> hands over exactly one \<^verbatim>\<open>CHANNEL_DATA\<close> message, whose payload is the
  first \<open>min (size of the ring) (budget - sizeof(msg_channel_data))\<close> bytes of the ring,
  and takes exactly these bytes off the ring; the size field of the message is
  \<^verbatim>\<open>sizeof(msg_channel_data)\<close> plus the payload length whenever the budget is at most
  65535, the largest value of a 16-bit size field. If the budget is at most
  \<^verbatim>\<open>sizeof(msg_channel_data)\<close>, \<open>xmit_data\<close> emits nothing and leaves the state as
  it is.
\<close>

theorem xmit_data_frames:
  assumes user: "NR_SPECIAL_CH < chno" "chno < length (ch sh)"
    and src: "dir (ch sh ! chno) = CHANNEL_FROM_FD" "0 < ringbuf_size (rb (ch sh ! chno))"
  shows
   "(sizeof_msg_channel_data < out_budget sh \<longrightarrow>
       xmit_data chno sh = Inr (ring_consumed (framed (data_frame chno sh) sh) chno (data_len chno sh)) \<and>
       length (frame_payload (data_frame chno sh)) = data_len chno sh \<and>
       (out_budget sh \<le> 65535 \<longrightarrow>
          frame_size (data_frame chno sh) = sizeof_msg_channel_data + data_len chno sh)) \<and>
    (out_budget sh \<le> sizeof_msg_channel_data \<longrightarrow> xmit_data chno sh = Inr sh)"
proof -
  from user have peer: "TO_PEER < length (ch sh)" and ne: "chno \<noteq> TO_PEER" "chno \<noteq> 0"
    by (simp_all add: NR_SPECIAL_CH_def TO_PEER_def)
  have at: "ch_at sh chno = Inr (ch sh ! chno)"
    using user by (simp add: ch_at_def)
  note budget = fb_adb_maxoutmsg_eq [OF peer]
  have small: "out_budget sh \<le> sizeof_msg_channel_data \<Longrightarrow> xmit_data chno sh = Inr sh"
    using src by (simp add: xmit_data_def at budget)
  {
    assume big: "sizeof_msg_channel_data < out_budget sh"
    let ?p = "data_len chno sh"
    let ?iov = "take ?p (content (rb (ch sh ! chno)))"
    let ?f = "data_frame chno sh"
    have p_le: "?p \<le> ringbuf_size (rb (ch sh ! chno))"
      and p_fit: "sizeof_msg_channel_data + ?p \<le> out_budget sh"
      using big by (simp_all add: data_len_def)
    have len: "length ?iov = ?p"
      using p_le by (simp add: ringbuf_size_def)
    have iov: "ringbuf_readable_iov (rb (ch sh ! chno)) ?p = Inr ?iov"
      using p_le by (simp add: ringbuf_readable_iov_def)
    have f: "?f = Frame_data
              \<lparr>msg = \<lparr>mtype = MSG_CHANNEL_DATA, mpad = 0,
                       msize = word_of_nat (sizeof_msg_channel_data + length ?iov)\<rparr>,
               channel = word_of_nat chno\<rparr> ?iov"
      unfolding len by (simp add: data_frame_def)
    have fits: "length (frame_bytes ?f) \<le> ringbuf_room (rb (ch sh ! TO_PEER))"
      unfolding f using p_fit len by (simp add: out_budget_def sizeof_msg_channel_data_def)
    have sent: "send_frame ?f sh = Inr (framed ?f sh)"
      using peer fits by (simp add: send_frame_Inr)
    have at1: "ch_at (framed ?f sh) chno = Inr (ch sh ! chno)"
      using user ne by (simp add: ch_at_def framed_fields)
    have removed: "ringbuf_note_removed (rb (ch sh ! chno)) ?p =
        Inr ((rb (ch sh ! chno))\<lparr>content := drop ?p (content (rb (ch sh ! chno)))\<rparr>)"
      using p_le by (simp add: ringbuf_note_removed_def)
    have same: "ch (framed ?f sh) ! chno = ch sh ! chno"
      using ne by (simp add: framed_fields)
    have run: "xmit_data chno sh = Inr (ring_consumed (framed ?f sh) chno ?p)"
      unfolding ring_consumed_def same
      by (rule xmit_data_run [OF at src(1) budget big src(2) data_len_def iov ne(2)
            sent [unfolded f] at1 [unfolded f] removed, folded f])
    have payload: "length (frame_payload ?f) = ?p"
      unfolding f using len by simp
    have size: "out_budget sh \<le> 65535 \<Longrightarrow> frame_size ?f = sizeof_msg_channel_data + ?p"
      unfolding f len using p_fit by (simp del: of_nat_add add: unat_word16)
    note run payload size
  }
  with small show ?thesis by blast
qed

lemmas demo_xmit_defs = demo_sh_def demo_ch_def demo_tight_def ch_set_def ch_at_def
  NR_SPECIAL_CH_def TO_PEER_def FROM_PEER_def out_budget_def ringbuf_size_def ringbuf_room_def
  data_len_def data_frame_def framed_def ring_appended_def ring_consumed_def
  sizeof_msg_channel_data_def MSG_CHANNEL_DATA_def bytes_of_msg_channel_data_def bytes_of_msg_def
  bytes_le16_def bytes_le32_def

theorem xmit_data_frames_witness:
  "xmit_data 2 (demo_sh [] []) =
     Inr \<lparr>ch = [demo_ch CHANNEL_FROM_FD (Some 0) 64 [],
                demo_ch CHANNEL_TO_FD (Some 1) 64 [40, 0, 11, 0, 2, 0, 0, 0, 1, 2, 3],
                demo_ch CHANNEL_FROM_FD (Some 5) 16 [],
                demo_ch CHANNEL_TO_FD (Some 6) 4 [],
                demo_ch CHANNEL_TO_FD None 16 [],
                demo_ch CHANNEL_FROM_FD None 16 [4, 5]],
          nrch = 6, max_outgoing_msg = 4096,
          sendlog = [Frame_data \<lparr>msg = \<lparr>mtype = 40, mpad = 0, msize = 11\<rparr>, channel = 2\<rparr>
                       [1, 2, 3]]\<rparr> \<and>
   frame_size (data_frame 2 (demo_sh [] [])) = 11 \<and>
   xmit_data 2 demo_tight = Inr demo_tight"
  using xmit_data_frames [of 2 "demo_sh [] []"] xmit_data_frames [of 2 demo_tight]
  by (simp add: demo_xmit_defs)

text \<open>
  C6 as stated fails: with a budget of eight bytes, the source channel 2, which holds
  three bytes, gets no message framed and keeps its bytes.
\<close>

theorem xmit_data_no_room_counterexample:
  "dir (ch demo_tight ! 2) = CHANNEL_FROM_FD \<and>
   ringbuf_size (rb (ch demo_tight ! 2)) = 3 \<and>
   xmit_data 2 demo_tight = Inr demo_tight \<and>
   xmit_data 2 demo_tight \<noteq>
     Inr (ring_consumed (framed (data_frame 2 demo_tight) demo_tight) 2 (data_len 2 demo_tight))"
  by (simp add: xmit_data_def fb_adb_maxoutmsg_def Let_def demo_xmit_defs)

subsection \<open>What the emitters do to a session\<close>

lemma xmit_acks_effect:
  assumes "xmit_acks chno sh = Inr sh'"
  shows "sh' = sh \<or>
    (chno < length (ch sh) \<and>
     sh' = ch_set (framed (window_frame chno (bytes_written (ch sh ! chno))) sh) chno
             ((ch (framed (window_frame chno (bytes_written (ch sh ! chno))) sh) ! chno)
                \<lparr>bytes_written := 0\<rparr>))"
  using assms
  unfolding xmit_acks_def Let_def
  by (auto simp: send_frame_Inr ch_at_Inr window_frame_def split: sum.splits if_splits)

lemma xmit_data_Inr_cases:
  assumes "xmit_data chno sh = Inr sh'"
  obtains (idle) "sh' = sh"
  | (emit) c b iov sh1 c1 r where
      "ch_at sh chno = Inr c" "dir c = CHANNEL_FROM_FD" "fb_adb_maxoutmsg sh = Inr b"
      "sizeof_msg_channel_data < b" "0 < ringbuf_size (rb c)"
      "ringbuf_readable_iov (rb c) (min (ringbuf_size (rb c)) (b - sizeof_msg_channel_data)) = Inr iov"
      "chno \<noteq> 0"
      "send_frame
         (Frame_data
            \<lparr>msg = \<lparr>mtype = MSG_CHANNEL_DATA, mpad = 0,
                     msize = word_of_nat (sizeof_msg_channel_data + length iov)\<rparr>,
             channel = word_of_nat chno\<rparr> iov) sh = Inr sh1"
      "ch_at sh1 chno = Inr c1"
      "ringbuf_note_removed (rb c1) (min (ringbuf_size (rb c)) (b - sizeof_msg_channel_data)) = Inr r"
      "sh' = ch_set sh1 chno (c1\<lparr>rb := r\<rparr>)"
  using assms unfolding xmit_data_def Let_def
  by (auto split: sum.splits if_splits)

lemma xmit_data_effect:
  assumes "xmit_data chno sh = Inr sh'"
  shows "sh' = sh \<or>
    (content (rb (ch sh ! chno)) \<noteq> [] \<and> chno < length (ch sh) \<and>
     sh' = ring_consumed (framed (data_frame chno sh) sh) chno (data_len chno sh))"
  using assms
proof (cases rule: xmit_data_Inr_cases)
  case idle
  then show ?thesis by simp
next
  case (emit c b iov sh1 c1 r)
  from emit(1) have lt: "chno < length (ch sh)" and c: "c = ch sh ! chno"
    by (simp_all add: ch_at_Inr)
  from emit(8) have peer: "TO_PEER < length (ch sh)"
    by (simp add: send_frame_Inr)
  from emit(3) have b: "b = out_budget sh"
    by (simp add: fb_adb_maxoutmsg_eq [OF peer])
  have p: "min (ringbuf_size (rb c)) (b - sizeof_msg_channel_data) = data_len chno sh"
    by (simp add: data_len_def b c)
  from emit(6) have iov: "iov = take (data_len chno sh) (content (rb (ch sh ! chno)))"
    and le: "data_len chno sh \<le> length (content (rb (ch sh ! chno)))"
    unfolding p by (simp_all add: ringbuf_readable_iov_Inr c)
  have len: "length iov = data_len chno sh"
    using le by (simp add: iov)
  have f: "Frame_data
            \<lparr>msg = \<lparr>mtype = MSG_CHANNEL_DATA, mpad = 0,
                     msize = word_of_nat (sizeof_msg_channel_data + length iov)\<rparr>,
             channel = word_of_nat chno\<rparr> iov = data_frame chno sh"
    unfolding len by (simp add: data_frame_def iov)
  from emit(8) have sh1: "sh1 = framed (data_frame chno sh) sh"
    unfolding f by (simp add: send_frame_Inr)
  from emit(9) have c1: "c1 = ch sh1 ! chno"
    by (simp add: ch_at_Inr)
  from emit(10) have r: "r = (rb c1)\<lparr>content := drop (data_len chno sh) (content (rb c1))\<rparr>"
    unfolding p by (simp add: ringbuf_note_removed_Inr)
  have "sh' = ring_consumed (framed (data_frame chno sh) sh) chno (data_len chno sh)"
    unfolding emit(11) r c1 sh1 ring_consumed_def ..
  moreover have "content (rb (ch sh ! chno)) \<noteq> []"
    using emit(5) by (auto simp: ringbuf_size_def c)
  ultimately show ?thesis using lt by simp
qed

lemma xmit_eof_effect:
  assumes "xmit_eof chno sh = Inr sh'"
  shows "sh' = sh \<or>
    (chno < length (ch sh) \<and>
     fdh (ch sh ! chno) = None \<and> \<not> sent_eof (ch sh ! chno) \<and>
     content (rb (ch sh ! chno)) = [] \<and>
     sh' = ch_set (framed (close_frame chno) sh) chno
             ((ch (framed (close_frame chno) sh) ! chno)\<lparr>sent_eof := True\<rparr>))"
  using assms
  unfolding xmit_eof_def Let_def
  by (auto simp: send_frame_Inr ch_at_Inr ringbuf_size_def framed_fields close_frame_def
      split: sum.splits if_splits)

lemma do_pending_close_effect:
  assumes "do_pending_close chno sh = Inr sh'"
  shows "sh' = sh \<or>
    (chno < length (ch sh) \<and> fdh (ch sh ! chno) \<noteq> None \<and>
       sh' = ch_set sh chno ((ch sh ! chno)\<lparr>fdh := None\<rparr>))"
  using assms
  unfolding do_pending_close_def
  by (auto simp: ch_at_Inr channel_close_def split: sum.splits if_splits)

subsection \<open>Invariants of the loops\<close>

lemma for_chno_invariant:
  assumes step: "\<And>chno s s'. P s \<Longrightarrow> body chno s = Inr s' \<Longrightarrow> P s'"
  shows "P sh \<Longrightarrow> for_chno body xs sh = Inr sh' \<Longrightarrow> P sh'"
proof (induction xs arbitrary: sh)
  case Nil
  then show ?case by simp
next
  case (Cons chno xs)
  from Cons.prems(2) obtain s1 where s1: "body chno sh = Inr s1" and rest: "for_chno body xs s1 = Inr sh'"
    by (auto split: sum.splits)
  from step [OF Cons.prems(1) s1] have "P s1" .
  from Cons.IH [OF this rest] show ?case .
qed

lemma ch_set_same: "ch_at sh i = Inr c \<Longrightarrow> ch_set sh i (c\<lparr>rb := rb c\<rparr>) = sh"
  by (simp add: ch_at_Inr ch_set_def)

lemma drain_peer_invariant:
  assumes step: "\<And>s mhdr s'. P s \<Longrightarrow> fb_adb_sh_process_msg s mhdr = Inr s' \<Longrightarrow> P s'"
  shows "P sh \<Longrightarrow> drain_peer sh = Inr sh' \<Longrightarrow> P sh'"
proof (induction sh rule: drain_peer.induct)
  case (1 sh)
  from "1.prems"(2) obtain c where c: "ch_at sh FROM_PEER = Inr c"
    by (subst (asm) drain_peer.simps) (auto split: sum.splits)
  from "1.prems"(2) c obtain r found mhdr where d: "detect_msg (rb c) = Inr (r, found, mhdr)"
    by (subst (asm) drain_peer.simps) (auto split: sum.splits)
  from detect_msg_ring [OF d] have r: "r = rb c" .
  have same: "ch_set sh FROM_PEER (c\<lparr>rb := r\<rparr>) = sh"
    unfolding r using c by (rule ch_set_same)
  show ?case
  proof (cases found)
    case False
    with "1.prems"(2) c d same have "sh' = sh"
      by (subst (asm) drain_peer.simps) (simp add: Let_def)
    with "1.prems"(1) show ?thesis by simp
  next
    case True
    with "1.prems"(2) c d same obtain s1 where
      s1: "fb_adb_sh_process_msg sh mhdr = Inr s1" and rest: "drain_peer s1 = Inr sh'"
      by (subst (asm) drain_peer.simps) (auto simp: Let_def split: sum.splits)
    from step [OF "1.prems"(1) s1] have P1: "P s1" .
    have proc: "fb_adb_sh_process_msg (ch_set sh FROM_PEER (c\<lparr>rb := r\<rparr>)) mhdr = Inr s1"
      using s1 same by simp
    have "P sh'"
      by (rule "1.IH" [OF c d refl refl refl True proc P1 rest])
    then show ?thesis .
  qed
qed

lemma keeps_refl: "keeps sh sh"
  by (simp add: keeps_def)

lemma keeps_trans: "keeps a b \<Longrightarrow> keeps b c \<Longrightarrow> keeps a c"
  by (simp add: keeps_def)

subsection \<open>Every operation keeps the session in shape\<close>

lemma nth_list_update_if:
  "xs[i := x] ! j = (if i = j \<and> i < length xs then x else xs ! j)"
  by (cases "i < length xs") (auto simp: nth_list_update list_update_beyond)

lemma framed_nth:
  "k < length (ch sh) \<Longrightarrow>
     ch (framed f sh) ! k =
       (if k = TO_PEER
        then (ch sh ! k)\<lparr>rb := (rb (ch sh ! k))\<lparr>content := content (rb (ch sh ! k)) @ frame_bytes f\<rparr>\<rparr>
        else ch sh ! k)"
  by (simp add: framed_def ring_appended_def ch_set_def nth_list_update_if)

lemma ring_consumed_nth:
  "k < length (ch sh) \<Longrightarrow>
     ch (ring_consumed sh i n) ! k =
       (if k = i
        then (ch sh ! k)\<lparr>rb := (rb (ch sh ! k))\<lparr>content := drop n (content (rb (ch sh ! k)))\<rparr>\<rparr>
        else ch sh ! k)"
  by (simp add: ring_consumed_def ch_set_def nth_list_update_if)

lemma ring_consumed_fields:
  "length (ch (ring_consumed sh i n)) = length (ch sh)"
  "nrch (ring_consumed sh i n) = nrch sh"
  "sendlog (ring_consumed sh i n) = sendlog sh"
  by (simp_all add: ring_consumed_def ch_set_def)

lemma xmit_acks_keeps: "xmit_acks chno sh = Inr sh' \<Longrightarrow> keeps sh sh'"
  by (drule xmit_acks_effect)
     (auto simp: keeps_def quiet_def framed_nth framed_fields ch_set_simps nth_list_update_if
        NR_SPECIAL_CH_def TO_PEER_def)

lemma xmit_data_keeps: "xmit_data chno sh = Inr sh' \<Longrightarrow> keeps sh sh'"
  by (drule xmit_data_effect)
     (auto simp: keeps_def quiet_def ring_consumed_nth ring_consumed_fields framed_nth framed_fields
        NR_SPECIAL_CH_def TO_PEER_def)

lemma xmit_eof_keeps: "xmit_eof chno sh = Inr sh' \<Longrightarrow> keeps sh sh'"
  by (drule xmit_eof_effect)
     (auto simp: keeps_def quiet_def framed_nth framed_fields ch_set_simps nth_list_update_if
        NR_SPECIAL_CH_def TO_PEER_def)

lemma do_pending_close_keeps: "do_pending_close chno sh = Inr sh' \<Longrightarrow> keeps sh sh'"
  by (drule do_pending_close_effect)
     (auto simp: keeps_def quiet_def ch_set_simps nth_list_update_if)

lemma keeps_ch_set_FROM_PEER:
  "keeps sh (ch_set sh FROM_PEER ((ch sh ! FROM_PEER)\<lparr>rb := r\<rparr>))"
  by (auto simp: keeps_def quiet_def ch_set_simps nth_list_update_if FROM_PEER_def NR_SPECIAL_CH_def)

lemma data_keeps:
  "fb_adb_sh_process_msg_channel_data sh m = Inr sh' \<Longrightarrow> keeps sh sh' \<and> sendlog sh' = sendlog sh"
  unfolding fb_adb_sh_process_msg_channel_data_def Let_def
  by (auto simp: keeps_def quiet_def ch_set_simps nth_list_update_if ch_at_Inr channel_write_def
        FROM_PEER_def NR_SPECIAL_CH_def
      split: if_splits sum.splits)

lemma window_keeps:
  "fb_adb_sh_process_msg_channel_window sh m = Inr sh' \<Longrightarrow> keeps sh sh' \<and> sendlog sh' = sendlog sh"
  unfolding fb_adb_sh_process_msg_channel_window_def
  by (auto simp: keeps_def quiet_def ch_set_simps nth_list_update_if ch_at_Inr
      split: if_splits sum.splits prod.splits)

lemma close_keeps:
  "fb_adb_sh_process_msg_channel_close sh m = Inr sh' \<Longrightarrow> keeps sh sh' \<and> sendlog sh' = sendlog sh"
  unfolding fb_adb_sh_process_msg_channel_close_def
  by (auto simp: keeps_def quiet_def ch_set_simps nth_list_update_if ch_at_Inr channel_close_def
      split: if_splits sum.splits)

lemma read_cmdmsg_keeps:
  "read_cmdmsg sh mhdr n = Inr (sh', bs) \<Longrightarrow> keeps sh sh' \<and> sendlog sh' = sendlog sh"
  unfolding read_cmdmsg_def
  by (auto simp: keeps_def quiet_def ch_set_simps nth_list_update_if ch_at_Inr
        FROM_PEER_def NR_SPECIAL_CH_def
      split: if_splits sum.splits)

lemma process_msg_keeps:
  assumes "fb_adb_sh_process_msg sh mhdr = Inr sh'"
  shows "keeps sh sh' \<and> sendlog sh' = sendlog sh"
  using assms unfolding fb_adb_sh_process_msg_def
  by (auto split: if_splits sum.splits prod.splits
      dest!: read_cmdmsg_keeps data_keeps window_keeps close_keeps
      simp: ch_at_Inr ch_set_simps
      intro: keeps_trans [OF keeps_ch_set_FROM_PEER] elim: keeps_trans)

subsection \<open>Invariants of the pump\<close>

lemma pump_channel_invariant:
  assumes "\<And>chno s s'. P s \<Longrightarrow> xmit_data chno s = Inr s' \<Longrightarrow> P s'"
    and "\<And>chno s s'. P s \<Longrightarrow> do_pending_close chno s = Inr s' \<Longrightarrow> P s'"
    and "\<And>chno s s'. P s \<Longrightarrow> xmit_eof chno s = Inr s' \<Longrightarrow> P s'"
  shows "P sh \<Longrightarrow> pump_channel chno sh = Inr sh' \<Longrightarrow> P sh'"
proof -
  assume P: "P sh" and run: "pump_channel chno sh = Inr sh'"
  from run obtain s1 s2 where d: "s1 = sh \<or> xmit_data chno sh = Inr s1"
    and c: "do_pending_close chno s1 = Inr s2" and e: "xmit_eof chno s2 = Inr sh'"
    unfolding pump_channel_def by (auto split: sum.splits if_splits)
  from d P assms(1) have "P s1" by blast
  with c assms(2) have "P s2" by blast
  with e assms(3) show "P sh'" by blast
qed

lemma io_loop_pump_invariant:
  assumes msg: "\<And>s mhdr s'. P s \<Longrightarrow> fb_adb_sh_process_msg s mhdr = Inr s' \<Longrightarrow> P s'"
    and acks: "\<And>chno s s'. P s \<Longrightarrow> xmit_acks chno s = Inr s' \<Longrightarrow> P s'"
    and data: "\<And>chno s s'. P s \<Longrightarrow> xmit_data chno s = Inr s' \<Longrightarrow> P s'"
    and pclose: "\<And>chno s s'. P s \<Longrightarrow> do_pending_close chno s = Inr s' \<Longrightarrow> P s'"
    and eof: "\<And>chno s s'. P s \<Longrightarrow> xmit_eof chno s = Inr s' \<Longrightarrow> P s'"
  shows "P sh \<Longrightarrow> io_loop_pump sh = Inr sh' \<Longrightarrow> P sh'"
proof -
  assume P: "P sh" and run: "io_loop_pump sh = Inr sh'"
  from run obtain s1 s2 where d: "drain_peer sh = Inr s1"
    and a: "for_chno xmit_acks [0..<nrch sh] s1 = Inr s2"
    and p: "for_chno pump_channel [0..<nrch sh] s2 = Inr sh'"
    unfolding io_loop_pump_def Let_def
    by (auto split: sum.splits if_splits)
  have "P s1"
    using msg P d by (rule drain_peer_invariant)
  then have "P s2"
    using a by (rule for_chno_invariant [rotated, of P _ xmit_acks]) (rule acks)
  then show "P sh'"
    using p
    by (rule for_chno_invariant [rotated, of P _ pump_channel])
       (rule pump_channel_invariant [of P, OF data pclose eof])
qed

subsection \<open>The log of messages handed over\<close>

lemma xmit_acks_log:
  "xmit_acks chno s = Inr s' \<Longrightarrow>
     sendlog s' = sendlog s \<or>
     sendlog s' = sendlog s @ [window_frame chno (bytes_written (ch s ! chno))]"
  by (drule xmit_acks_effect) (auto simp: ch_set_simps framed_fields)

lemma xmit_data_log:
  "xmit_data chno s = Inr s' \<Longrightarrow>
     sendlog s' = sendlog s \<or>
     (content (rb (ch s ! chno)) \<noteq> [] \<and> chno < length (ch s) \<and>
      sendlog s' = sendlog s @ [data_frame chno s])"
  by (drule xmit_data_effect) (auto simp: ring_consumed_fields framed_fields)

lemma xmit_eof_log:
  "xmit_eof chno s = Inr s' \<Longrightarrow>
     s' = s \<or>
     (chno < length (ch s) \<and> \<not> sent_eof (ch s ! chno) \<and> sent_eof (ch s' ! chno) \<and>
      sendlog s' = sendlog s @ [close_frame chno])"
  by (drule xmit_eof_effect) (auto simp: ch_set_simps framed_fields)

lemma do_pending_close_log: "do_pending_close chno s = Inr s' \<Longrightarrow> sendlog s' = sendlog s"
  by (drule do_pending_close_effect) (auto simp: ch_set_simps)

lemma unat_channel_number: "chno < 2 ^ 32 \<Longrightarrow> unat (word_of_nat chno :: 32 word) = chno"
  by (simp add: unat_of_nat)

lemma frame_kinds [simp]:
  "is_window (window_frame chno d)" "\<not> is_data (window_frame chno d)" "\<not> is_close (window_frame chno d)"
  "is_data (data_frame chno s)" "\<not> is_window (data_frame chno s)" "\<not> is_close (data_frame chno s)"
  "is_close (close_frame chno)" "\<not> is_window (close_frame chno)" "\<not> is_data (close_frame chno)"
  by (simp_all add: window_frame_def data_frame_def close_frame_def)

lemma frame_channels:
  "chno < 2 ^ 32 \<Longrightarrow> frame_channel (window_frame chno d) = chno"
  "chno < 2 ^ 32 \<Longrightarrow> frame_channel (data_frame chno s) = chno"
  "chno < 2 ^ 32 \<Longrightarrow> frame_channel (close_frame chno) = chno"
  by (simp_all add: window_frame_def data_frame_def close_frame_def unat_channel_number)

lemma do_io_step_keeps: "do_io_step s s' \<Longrightarrow> keeps s s'"
  by (auto simp: do_io_step_def keeps_def quiet_def poll_step_def list_all2_conv_all_nth)

lemma keeps_quiet:
  "keeps sh s \<Longrightarrow> NR_SPECIAL_CH < k \<Longrightarrow> k < length (ch sh) \<Longrightarrow> quiet (ch sh ! k) \<Longrightarrow> quiet (ch s ! k)"
  by (simp add: keeps_def)

lemma keeps_length: "keeps sh s \<Longrightarrow> length (ch s) = length (ch sh)"
  by (simp add: keeps_def)

subsection \<open>A quiet channel frames no data\<close>

lemma quiet_pump:
  assumes user: "NR_SPECIAL_CH < k" "k < length (ch sh)" and size: "length (ch sh) \<le> 2 ^ 32"
    and q: "quiet (ch sh ! k)" and run: "io_loop_pump sh = Inr sh'"
  shows "keeps sh sh' \<and> data_for k (sendlog sh') = data_for k (sendlog sh)"
proof -
  let ?P = "\<lambda>s. keeps sh s \<and> data_for k (sendlog s) = data_for k (sendlog sh)"
  have "?P sh'"
  proof (rule io_loop_pump_invariant [of ?P, OF _ _ _ _ _ _ run])
    show "?P sh" by (simp add: keeps_refl)
  next
    fix s :: fb_adb_sh and mhdr s'
    assume "?P s" "fb_adb_sh_process_msg s mhdr = Inr s'"
    then show "?P s'"
      by (auto dest!: process_msg_keeps elim: keeps_trans)
  next
    fix chno and s s' :: fb_adb_sh
    assume "?P s" "xmit_acks chno s = Inr s'"
    then show "?P s'"
      by (auto dest: xmit_acks_keeps xmit_acks_log elim: keeps_trans simp: data_for_def)
  next
    fix chno and s s' :: fb_adb_sh
    assume P: "?P s" and x: "xmit_data chno s = Inr s'"
    from P have k: "keeps sh s'"
      using xmit_data_keeps [OF x] by (blast intro: keeps_trans)
    from P have qs: "content (rb (ch s ! k)) = []" and len: "length (ch s) = length (ch sh)"
      using keeps_quiet [OF _ user q] by (simp_all add: quiet_def keeps_length)
    from xmit_data_log [OF x]
    have "data_for k (sendlog s') = data_for k (sendlog s)"
    proof
      assume "sendlog s' = sendlog s"
      then show ?thesis by simp
    next
      assume e: "content (rb (ch s ! chno)) \<noteq> [] \<and> chno < length (ch s) \<and>
        sendlog s' = sendlog s @ [data_frame chno s]"
      with qs have "chno \<noteq> k" by auto
      moreover from e len size have "chno < 2 ^ 32" by simp
      ultimately show ?thesis
        using e by (simp add: data_for_def frame_channels)
    qed
    with P k show "?P s'" by simp
  next
    fix chno and s s' :: fb_adb_sh
    assume "?P s" "do_pending_close chno s = Inr s'"
    then show "?P s'"
      by (auto dest: do_pending_close_keeps do_pending_close_log elim: keeps_trans)
  next
    fix chno and s s' :: fb_adb_sh
    assume "?P s" "xmit_eof chno s = Inr s'"
    then show "?P s'"
      by (auto dest: xmit_eof_keeps xmit_eof_log elim: keeps_trans simp: data_for_def)
  qed
  then show ?thesis .
qed

lemma quiet_run:
  assumes user: "NR_SPECIAL_CH < k" "k < length (ch sh)" and size: "length (ch sh) \<le> 2 ^ 32"
    and q: "quiet (ch sh ! k)"
  shows "session_run sh sh' \<Longrightarrow> keeps sh sh' \<and> data_for k (sendlog sh') = data_for k (sendlog sh)"
proof (induction rule: session_run.induct)
  case start
  show ?case by (simp add: keeps_refl)
next
  case (pump s s')
  then have k: "keeps sh s" and l: "data_for k (sendlog s) = data_for k (sendlog sh)"
    by simp_all
  from k user size q
  have "NR_SPECIAL_CH < k" "k < length (ch s)" "length (ch s) \<le> 2 ^ 32" "quiet (ch s ! k)"
    by (simp_all add: keeps_length keeps_quiet)
  from quiet_pump [OF this pump.hyps(2)] k l show ?case
    by (auto elim: keeps_trans)
next
  case (do_io s s')
  then have k: "keeps sh s" and l: "data_for k (sendlog s) = data_for k (sendlog sh)"
    by simp_all
  from do_io.hyps(2) have "keeps s s'" "sendlog s' = sendlog s"
    by (simp_all add: do_io_step_keeps) (simp add: do_io_step_def)
  with k l show ?case
    by (auto elim: keeps_trans)
qed

lemma xmit_eof_leaves_quiet:
  assumes "NR_SPECIAL_CH < k" "xmit_eof k s = Inr s'" "\<not> sent_eof (ch s ! k)" "sent_eof (ch s' ! k)"
  shows "quiet (ch s' ! k)"
  using xmit_eof_effect [OF assms(2)] assms(1,3,4)
  by (auto simp: quiet_def ch_set_simps framed_nth framed_fields NR_SPECIAL_CH_def TO_PEER_def)

text \<open>
  C3, as amended. Let \<open>k\<close> be a user channel. Once \<open>k\<close> is quiet, that is once
  \<^verbatim>\<open>sent_eof\<close> is set while the fd handle is gone and the ring is empty, it stays
  quiet and no \<^verbatim>\<open>CHANNEL_DATA\<close> message for \<open>k\<close> is handed over in the rest of the
  session, whatever pump iterations and i/o steps follow. Whenever \<open>xmit_eof\<close> sets
  \<^verbatim>\<open>sent_eof\<close> of \<open>k\<close>, it leaves \<open>k\<close> quiet.
\<close>

theorem no_data_when_quiet:
  assumes user: "NR_SPECIAL_CH < k" "k < length (ch sh)" and size: "length (ch sh) \<le> 2 ^ 32"
  shows
   "(quiet (ch sh ! k) \<and> session_run sh sh' \<longrightarrow>
       quiet (ch sh' ! k) \<and> data_for k (sendlog sh') = data_for k (sendlog sh)) \<and>
    (\<forall>s s'. xmit_eof k s = Inr s' \<and> \<not> sent_eof (ch s ! k) \<and> sent_eof (ch s' ! k) \<longrightarrow>
       quiet (ch s' ! k))"
proof -
  have "quiet (ch sh' ! k) \<and> data_for k (sendlog sh') = data_for k (sendlog sh)"
    if q: "quiet (ch sh ! k)" and run: "session_run sh sh'"
    using quiet_run [OF user size q run] keeps_quiet [OF _ user q] by blast
  moreover have "quiet (ch s' ! k)"
    if "xmit_eof k s = Inr s'" "\<not> sent_eof (ch s ! k)" "sent_eof (ch s' ! k)" for s s'
    using user(1) that by (rule xmit_eof_leaves_quiet)
  ultimately show ?thesis by blast
qed

subsection \<open>Running the pump\<close>

lemmas pump_eval_defs = io_loop_pump_def drain_peer.simps pump_channel_def
  xmit_acks_def xmit_data_def xmit_eof_def do_pending_close_def fb_adb_maxoutmsg_def send_frame_def
  channel_write_def channel_close_def detect_msg_def fb_adb_sh_process_msg_def read_cmdmsg_def
  fb_adb_sh_process_msg_channel_data_def fb_adb_sh_process_msg_channel_window_def
  fb_adb_sh_process_msg_channel_close_def SATADD_def size_t_sub_def
  ringbuf_size_def ringbuf_room_def ringbuf_copy_out_def ringbuf_note_removed_def
  ringbuf_readable_iov_def ch_at_def ch_set_def
  FROM_PEER_def TO_PEER_def NR_SPECIAL_CH_def
  MSG_CHANNEL_DATA_def MSG_CHANNEL_WINDOW_def MSG_CHANNEL_CLOSE_def
  sizeof_msg_def sizeof_msg_channel_data_def sizeof_msg_channel_window_def sizeof_msg_channel_close_def
  msg_of_bytes_def msg_channel_data_of_bytes_def msg_channel_window_of_bytes_def le16_def le32_def
  bytes_of_msg_def bytes_of_msg_channel_data_def bytes_of_msg_channel_window_def
  bytes_le16_def bytes_le32_def zero_msg_def Let_def upt_rec
  demo_ch_def demo_sh_def demo_pump_def demo_pumped_def demo_source_def

lemma demo_pump_run: "io_loop_pump demo_pump = Inr demo_pumped"
  by (simp add: pump_eval_defs)

lemma demo_pumped_run: "io_loop_pump demo_pumped = Inr demo_pumped"
  by (simp add: pump_eval_defs)

theorem no_data_when_quiet_witness:
  "io_loop_pump demo_pump = Inr demo_pumped \<and>
   quiet (ch demo_pump ! 4) \<and> quiet (ch demo_pumped ! 4) \<and>
   data_for 4 (sendlog demo_pumped) = [] \<and>
   \<not> sent_eof (ch demo_pump ! 5) \<and> sent_eof (ch demo_pumped ! 5) \<and> quiet (ch demo_pumped ! 5)"
proof -
  have run: "session_run demo_pump demo_pumped"
    by (rule session_run.pump [OF session_run.start demo_pump_run])
  have eof: "xmit_eof 5 demo_pump =
      Inr (demo_pump\<lparr>ch := (ch demo_pump)
              [1 := demo_ch CHANNEL_TO_FD (Some 1) 64 [42, 0, 8, 0, 5, 0, 0, 0],
               5 := (demo_ch CHANNEL_TO_FD None 16 [])\<lparr>sent_eof := True\<rparr>],
            sendlog := [Frame_close \<lparr>msg = \<lparr>mtype = 42, mpad = 0, msize = 8\<rparr>, channel = 5\<rparr>]\<rparr>)"
    by (simp add: pump_eval_defs)
  from no_data_when_quiet [of 4 demo_pump demo_pumped] run
    no_data_when_quiet [of 5 demo_pump demo_pumped, THEN conjunct2, rule_format, OF _ _ _ conjI [OF eof]]
    demo_pump_run
  show ?thesis
    by (simp add: NR_SPECIAL_CH_def quiet_def data_for_def demo_pump_def demo_pumped_def demo_ch_def)
qed

text \<open>
  C3 as stated fails: a \<^verbatim>\<open>CHANNEL_CLOSE\<close> received for a source that still holds three
  bytes sets \<^verbatim>\<open>sent_eof\<close>, and the next pump frames the three bytes as
  \<^verbatim>\<open>CHANNEL_DATA\<close> for that channel.
\<close>

theorem data_after_received_close_counterexample:
  "fb_adb_sh_process_msg_channel_close (demo_source False (Some 5) [1, 2, 3] [] [])
       \<lparr>msg = \<lparr>mtype = 42, mpad = 0, msize = 8\<rparr>, channel = 2\<rparr>
     = Inr (demo_source True None [1, 2, 3] [] []) \<and>
   sent_eof (ch (demo_source True None [1, 2, 3] [] []) ! 2) \<and>
   io_loop_pump (demo_source True None [1, 2, 3] [] [])
     = Inr (demo_source True None [] [40, 0, 11, 0, 2, 0, 0, 0, 1, 2, 3]
             [Frame_data \<lparr>msg = \<lparr>mtype = 40, mpad = 0, msize = 11\<rparr>, channel = 2\<rparr> [1, 2, 3]])"
  by (simp add: pump_eval_defs)

subsection \<open>At most one close per channel\<close>

lemma close_counted_keeps:
  assumes "close_counted s" "keeps s s'"
    and "sendlog s' = sendlog s \<or> (\<exists>f. sendlog s' = sendlog s @ [f] \<and> \<not> is_close f)"
  shows "close_counted s'"
  unfolding close_counted_def
proof (intro conjI allI)
  from assms(1,2) show "length (ch s') \<le> 2 ^ 32"
    by (simp add: close_counted_def keeps_def)
next
  fix k
  from assms(3) have same: "close_for k (sendlog s') = close_for k (sendlog s)"
    by (auto simp: close_for_def)
  from assms(1) have "length (close_for k (sendlog s)) \<le>
      (if k < length (ch s) \<and> sent_eof (ch s ! k) then 1 else 0)"
    by (simp add: close_counted_def)
  also from assms(2) have "\<dots> \<le> (if k < length (ch s') \<and> sent_eof (ch s' ! k) then 1 else 0)"
    by (auto simp: keeps_def)
  finally show "length (close_for k (sendlog s')) \<le>
      (if k < length (ch s') \<and> sent_eof (ch s' ! k) then 1 else 0)"
    unfolding same .
qed

lemma close_counted_xmit_eof:
  assumes c: "close_counted s" and x: "xmit_eof chno s = Inr s'"
  shows "close_counted s'"
proof -
  note k = xmit_eof_keeps [OF x]
  from xmit_eof_log [OF x] show ?thesis
  proof
    assume "s' = s"
    with c show ?thesis by simp
  next
    assume e: "chno < length (ch s) \<and> \<not> sent_eof (ch s ! chno) \<and> sent_eof (ch s' ! chno) \<and>
      sendlog s' = sendlog s @ [close_frame chno]"
    from c e have small: "chno < 2 ^ 32"
      by (simp add: close_counted_def)
    show ?thesis
      unfolding close_counted_def
    proof (intro conjI allI)
      from c k show "length (ch s') \<le> 2 ^ 32"
        by (simp add: close_counted_def keeps_def)
    next
      fix j
      from c have bound: "length (close_for j (sendlog s)) \<le>
          (if j < length (ch s) \<and> sent_eof (ch s ! j) then 1 else 0)"
        by (simp add: close_counted_def)
      show "length (close_for j (sendlog s')) \<le>
          (if j < length (ch s') \<and> sent_eof (ch s' ! j) then 1 else 0)"
      proof (cases "j = chno")
        case True
        with bound e have "close_for j (sendlog s) = []" by simp
        with e True k show ?thesis
          by (simp add: close_for_def keeps_def)
      next
        case False
        with e small have "close_for j (sendlog s') = close_for j (sendlog s)"
          by (simp add: close_for_def frame_channels)
        moreover from k have
          "(if j < length (ch s) \<and> sent_eof (ch s ! j) then 1 else 0) \<le>
           (if j < length (ch s') \<and> sent_eof (ch s' ! j) then 1 else (0::nat))"
          by (auto simp: keeps_def)
        ultimately show ?thesis using bound by simp
      qed
    qed
  qed
qed

lemma close_counted_pump:
  assumes "close_counted sh" "io_loop_pump sh = Inr sh'"
  shows "close_counted sh'"
proof (rule io_loop_pump_invariant [of close_counted, OF _ _ _ _ _ assms])
  fix s :: fb_adb_sh and mhdr s'
  assume "close_counted s" "fb_adb_sh_process_msg s mhdr = Inr s'"
  then show "close_counted s'"
    by (auto dest!: process_msg_keeps intro: close_counted_keeps)
next
  fix chno and s s' :: fb_adb_sh
  assume "close_counted s" "xmit_acks chno s = Inr s'"
  then show "close_counted s'"
    using xmit_acks_keeps [of chno s s'] xmit_acks_log [of chno s s']
    by (auto intro!: close_counted_keeps [of s s'])
next
  fix chno and s s' :: fb_adb_sh
  assume "close_counted s" "xmit_data chno s = Inr s'"
  then show "close_counted s'"
    using xmit_data_keeps [of chno s s'] xmit_data_log [of chno s s']
    by (auto intro!: close_counted_keeps [of s s'])
next
  fix chno and s s' :: fb_adb_sh
  assume "close_counted s" "do_pending_close chno s = Inr s'"
  then show "close_counted s'"
    using do_pending_close_keeps [of chno s s'] do_pending_close_log [of chno s s']
    by (auto intro!: close_counted_keeps [of s s'])
next
  fix chno and s s' :: fb_adb_sh
  assume "close_counted s" "xmit_eof chno s = Inr s'"
  then show "close_counted s'"
    by (rule close_counted_xmit_eof)
qed

lemma close_counted_run:
  assumes "close_counted sh"
  shows "session_run sh sh' \<Longrightarrow> close_counted sh' \<and> keeps sh sh'"
proof (induction rule: session_run.induct)
  case start
  with assms show ?case by (simp add: keeps_refl)
next
  case (pump s s')
  then have "close_counted s'"
    by (auto intro: close_counted_pump)
  moreover have "keeps s s'"
    using pump.hyps(2)
    by (rule io_loop_pump_invariant [of "keeps s", rotated 6])
       (auto dest: process_msg_keeps xmit_acks_keeps xmit_data_keeps do_pending_close_keeps
          xmit_eof_keeps elim: keeps_trans intro: keeps_refl)
  ultimately show ?case
    using pump.IH by (auto elim: keeps_trans)
next
  case (do_io s s')
  from do_io.hyps(2) have "keeps s s'" "sendlog s' = sendlog s"
    by (simp_all add: do_io_step_keeps) (simp add: do_io_step_def)
  with do_io.IH show ?case
    by (auto intro: close_counted_keeps elim: keeps_trans)
qed

lemma xmit_eof_cases:
  assumes "xmit_eof chno s = Inr s'"
  shows "s' = s \<or>
    (fdh (ch s ! chno) = None \<and> \<not> sent_eof (ch s ! chno) \<and>
     ringbuf_size (rb (ch s ! chno)) = 0 \<and> sizeof_msg_channel_close \<le> out_budget s \<and>
     s' = ch_set (framed (close_frame chno) s) chno
            ((ch (framed (close_frame chno) s) ! chno)\<lparr>sent_eof := True\<rparr>))"
proof (cases "s' = s")
  case True
  then show ?thesis by simp
next
  case False
  with xmit_eof_effect [OF assms] have e: "chno < length (ch s)" "fdh (ch s ! chno) = None"
    "\<not> sent_eof (ch s ! chno)" "content (rb (ch s ! chno)) = []"
    "s' = ch_set (framed (close_frame chno) s) chno
            ((ch (framed (close_frame chno) s) ! chno)\<lparr>sent_eof := True\<rparr>)"
    by auto
  from assms False e(1-4) have "sizeof_msg_channel_close \<le> out_budget s"
    unfolding xmit_eof_def
    by (auto simp: ch_at_def ringbuf_size_def fb_adb_maxoutmsg_def out_budget_def
        split: sum.splits if_splits)
  with e show ?thesis
    by (simp add: ringbuf_size_def)
qed

text \<open>
  C9. In a session that starts with an empty log and runs through any pump iterations
  and i/o steps, the log holds at most one \<^verbatim>\<open>CHANNEL_CLOSE\<close> message for each channel
  number, and a \<^verbatim>\<open>sent_eof\<close> flag that was set is still set. \<open>xmit_eof\<close> either
  leaves the state as it is, or it finds the fd handle gone, \<^verbatim>\<open>sent_eof\<close> false, the
  ring empty and room for the message in the outgoing budget, hands over one
  \<^verbatim>\<open>CHANNEL_CLOSE\<close> and sets \<^verbatim>\<open>sent_eof\<close> in the same step.
\<close>

theorem at_most_one_close:
  assumes size: "length (ch sh) \<le> 2 ^ 32" and fresh: "sendlog sh = []"
    and run: "session_run sh sh'"
  shows
   "length (close_for k (sendlog sh')) \<le> 1 \<and>
    (\<forall>j<length (ch sh). sent_eof (ch sh ! j) \<longrightarrow> sent_eof (ch sh' ! j)) \<and>
    (\<forall>chno s s'. xmit_eof chno s = Inr s' \<longrightarrow>
       s' = s \<or>
       (fdh (ch s ! chno) = None \<and> \<not> sent_eof (ch s ! chno) \<and>
        ringbuf_size (rb (ch s ! chno)) = 0 \<and> sizeof_msg_channel_close \<le> out_budget s \<and>
        s' = ch_set (framed (close_frame chno) s) chno
               ((ch (framed (close_frame chno) s) ! chno)\<lparr>sent_eof := True\<rparr>)))"
proof -
  from size fresh have "close_counted sh"
    by (simp add: close_counted_def close_for_def)
  from close_counted_run [OF this run] have c: "close_counted sh'" and k: "keeps sh sh'"
    by simp_all
  from c have "length (close_for k (sendlog sh')) \<le>
      (if k < length (ch sh') \<and> sent_eof (ch sh' ! k) then 1 else 0)"
    by (simp add: close_counted_def)
  then have one: "length (close_for k (sendlog sh')) \<le> 1"
    by (simp split: if_splits)
  from k have mono: "\<forall>j<length (ch sh). sent_eof (ch sh ! j) \<longrightarrow> sent_eof (ch sh' ! j)"
    by (simp add: keeps_def)
  from one mono show ?thesis
    by (blast dest: xmit_eof_cases)
qed

theorem at_most_one_close_witness:
  "io_loop_pump demo_pump = Inr demo_pumped \<and> io_loop_pump demo_pumped = Inr demo_pumped \<and>
   close_for 5 (sendlog demo_pumped) =
     [Frame_close \<lparr>msg = \<lparr>mtype = 42, mpad = 0, msize = 8\<rparr>, channel = 5\<rparr>] \<and>
   sent_eof (ch demo_pump ! 4) \<and> sent_eof (ch demo_pumped ! 4) \<and>
   xmit_eof 4 demo_pump = Inr demo_pump \<and>
   fdh (ch demo_pump ! 5) = None \<and> \<not> sent_eof (ch demo_pump ! 5) \<and>
   ringbuf_size (rb (ch demo_pump ! 5)) = 0 \<and> sizeof_msg_channel_close \<le> out_budget demo_pump \<and>
   xmit_eof 5 demo_pump =
     Inr (ch_set (framed (close_frame 5) demo_pump) 5
           ((ch (framed (close_frame 5) demo_pump) ! 5)\<lparr>sent_eof := True\<rparr>))"
proof -
  have run: "session_run demo_pump demo_pumped"
    by (rule session_run.pump [OF session_run.pump [OF session_run.start demo_pump_run] demo_pumped_run])
  have e4: "xmit_eof 4 demo_pump = Inr demo_pump"
    by (simp add: pump_eval_defs)
  have e5: "xmit_eof 5 demo_pump =
      Inr (demo_pump\<lparr>ch := (ch demo_pump)
              [1 := demo_ch CHANNEL_TO_FD (Some 1) 64 [42, 0, 8, 0, 5, 0, 0, 0],
               5 := (demo_ch CHANNEL_TO_FD None 16 [])\<lparr>sent_eof := True\<rparr>],
            sendlog := [Frame_close \<lparr>msg = \<lparr>mtype = 42, mpad = 0, msize = 8\<rparr>, channel = 5\<rparr>]\<rparr>)"
    by (simp add: pump_eval_defs)
  have ne: "demo_pump\<lparr>ch := (ch demo_pump)
              [1 := demo_ch CHANNEL_TO_FD (Some 1) 64 [42, 0, 8, 0, 5, 0, 0, 0],
               5 := (demo_ch CHANNEL_TO_FD None 16 [])\<lparr>sent_eof := True\<rparr>],
            sendlog := [Frame_close \<lparr>msg = \<lparr>mtype = 42, mpad = 0, msize = 8\<rparr>, channel = 5\<rparr>]\<rparr>
        \<noteq> demo_pump"
    by (simp add: demo_pump_def)
  from at_most_one_close [of demo_pump demo_pumped 5, OF _ _ run]
  have main: "length (close_for 5 (sendlog demo_pumped)) \<le> 1"
    and mono: "\<forall>j<length (ch demo_pump). sent_eof (ch demo_pump ! j) \<longrightarrow> sent_eof (ch demo_pumped ! j)"
    and eof: "\<And>chno s s'. xmit_eof chno s = Inr s' \<Longrightarrow>
       s' = s \<or>
       (fdh (ch s ! chno) = None \<and> \<not> sent_eof (ch s ! chno) \<and>
        ringbuf_size (rb (ch s ! chno)) = 0 \<and> sizeof_msg_channel_close \<le> out_budget s \<and>
        s' = ch_set (framed (close_frame chno) s) chno
               ((ch (framed (close_frame chno) s) ! chno)\<lparr>sent_eof := True\<rparr>))"
    by (simp_all add: demo_pump_def)
  from mono have m4: "sent_eof (ch demo_pump ! 4) \<and> sent_eof (ch demo_pumped ! 4)"
    by (simp add: demo_pump_def demo_pumped_def demo_ch_def)
  have c5: "close_for 5 (sendlog demo_pumped) =
      [Frame_close \<lparr>msg = \<lparr>mtype = 42, mpad = 0, msize = 8\<rparr>, channel = 5\<rparr>]"
    using main by (simp add: close_for_def demo_pumped_def)
  from eof [OF e5] ne e5 have
    "fdh (ch demo_pump ! 5) = None \<and> \<not> sent_eof (ch demo_pump ! 5) \<and>
     ringbuf_size (rb (ch demo_pump ! 5)) = 0 \<and> sizeof_msg_channel_close \<le> out_budget demo_pump \<and>
     xmit_eof 5 demo_pump =
       Inr (ch_set (framed (close_frame 5) demo_pump) 5
             ((ch (framed (close_frame 5) demo_pump) ! 5)\<lparr>sent_eof := True\<rparr>))"
    by auto
  with demo_pump_run demo_pumped_run c5 m4 e4 show ?thesis
    by simp
qed

subsection \<open>The order of emission\<close>

lemma emits_nothing: "emits s s []"
  by (simp add: emits_def)

lemma emits_trans: "emits a b xs \<Longrightarrow> emits b c ys \<Longrightarrow> emits a c (xs @ ys)"
  by (simp add: emits_def)

lemma xmit_acks_emits:
  assumes "xmit_acks chno s = Inr s'"
  shows "\<exists>new. emits s s' new \<and> list_all is_window new \<and>
    (chno < 2 ^ 32 \<longrightarrow> ack_frames chno new)"
  using xmit_acks_effect [OF assms]
proof
  assume "s' = s"
  then have "emits s s' [] \<and> list_all is_window [] \<and> (chno < 2 ^ 32 \<longrightarrow> ack_frames chno [])"
    by (simp add: emits_def)
  then show ?thesis ..
next
  let ?f = "window_frame chno (bytes_written (ch s ! chno))"
  assume e: "chno < length (ch s) \<and>
     s' = ch_set (framed ?f s) chno ((ch (framed ?f s) ! chno)\<lparr>bytes_written := 0\<rparr>)"
  from assms have peer: "TO_PEER < length (ch s)"
    unfolding xmit_acks_def
    by (auto simp: fb_adb_maxoutmsg_def ch_at_def split: sum.splits if_splits)
  from e peer have "emits s s' [?f]"
    by (simp add: emits_def peer_bytes_def ch_set_simps framed_fields framed_nth nth_list_update_if)
  then have "emits s s' [?f] \<and> list_all is_window [?f] \<and>
      (chno < 2 ^ 32 \<longrightarrow> ack_frames chno [?f])"
    by (simp add: frame_channels)
  then show ?thesis ..
qed

lemma xmit_data_emits:
  assumes "xmit_data chno s = Inr s'" "NR_SPECIAL_CH < chno"
  shows "emits s s' [] \<or> emits s s' [data_frame chno s]"
  using xmit_data_effect [OF assms(1)]
proof
  assume "s' = s"
  then show ?thesis by (simp add: emits_def)
next
  assume e: "content (rb (ch s ! chno)) \<noteq> [] \<and> chno < length (ch s) \<and>
     s' = ring_consumed (framed (data_frame chno s) s) chno (data_len chno s)"
  with assms(2) have "TO_PEER < length (ch s)" "chno \<noteq> TO_PEER"
    by (simp_all add: NR_SPECIAL_CH_def TO_PEER_def)
  with e have "emits s s' [data_frame chno s]"
    by (simp add: emits_def peer_bytes_def ring_consumed_fields ring_consumed_nth framed_fields
        framed_nth)
  then show ?thesis ..
qed

lemma do_pending_close_emits:
  assumes "do_pending_close chno s = Inr s'"
  shows "emits s s' []"
  using do_pending_close_effect [OF assms]
  by (auto simp: emits_def peer_bytes_def ch_set_simps nth_list_update_if)

lemma xmit_eof_emits:
  assumes "xmit_eof chno s = Inr s'"
  shows "emits s s' [] \<or> emits s s' [close_frame chno]"
  using xmit_eof_effect [OF assms]
proof
  assume "s' = s"
  then show ?thesis by (simp add: emits_def)
next
  let ?f = "close_frame chno"
  assume e: "chno < length (ch s) \<and> fdh (ch s ! chno) = None \<and> \<not> sent_eof (ch s ! chno) \<and>
     content (rb (ch s ! chno)) = [] \<and>
     s' = ch_set (framed ?f s) chno ((ch (framed ?f s) ! chno)\<lparr>sent_eof := True\<rparr>)"
  from assms e have peer: "TO_PEER < length (ch s)"
    unfolding xmit_eof_def
    by (auto simp: fb_adb_maxoutmsg_def ch_at_def ringbuf_size_def split: sum.splits if_splits)
  from e peer have "emits s s' [?f]"
    by (simp add: emits_def peer_bytes_def ch_set_simps framed_fields framed_nth nth_list_update_if)
  then show ?thesis ..
qed

lemma pump_channel_emits:
  assumes "pump_channel chno s = Inr s'"
  shows "\<exists>new. emits s s' new \<and> list_all (\<lambda>f. \<not> is_window f) new \<and>
    (chno < 2 ^ 32 \<longrightarrow> channel_frames chno new)"
proof -
  from assms obtain s1 s2 where d: "s1 = s \<and> \<not> NR_SPECIAL_CH < chno \<or>
        xmit_data chno s = Inr s1 \<and> NR_SPECIAL_CH < chno"
    and c: "do_pending_close chno s1 = Inr s2" and e: "xmit_eof chno s2 = Inr s'"
    unfolding pump_channel_def by (auto split: sum.splits if_splits)
  from d have "emits s s1 [] \<or> emits s s1 [data_frame chno s] \<and> NR_SPECIAL_CH < chno"
    by (auto dest: xmit_data_emits simp: emits_nothing)
  then obtain ds where ds: "emits s s1 ds" "ds = [] \<or> ds = [data_frame chno s] \<and> NR_SPECIAL_CH < chno"
    by blast
  from xmit_eof_emits [OF e] obtain cs where cs: "emits s2 s' cs" "cs = [] \<or> cs = [close_frame chno]"
    by blast
  from emits_trans [OF emits_trans [OF ds(1) do_pending_close_emits [OF c]] cs(1)]
  have "emits s s' (ds @ cs)" by simp
  moreover from ds(2) cs(2) have "chno < 2 ^ 32 \<longrightarrow> channel_frames chno (ds @ cs)"
    by (auto simp: frame_channels)
  moreover from ds(2) cs(2) have "list_all (\<lambda>f. \<not> is_window f) (ds @ cs)"
    by auto
  ultimately show ?thesis by blast
qed

lemma for_chno_emits:
  assumes step: "\<And>chno s s'. body chno s = Inr s' \<Longrightarrow> \<exists>new. emits s s' new \<and> R chno new"
  shows "for_chno body xs sh = Inr sh' \<Longrightarrow>
    \<exists>news. emits sh sh' (concat news) \<and> list_all2 R xs news"
proof (induction xs arbitrary: sh)
  case Nil
  then have "emits sh sh' (concat []) \<and> list_all2 R [] []"
    by (simp add: emits_nothing)
  then show ?case by blast
next
  case (Cons chno xs)
  from Cons.prems obtain s1 where s1: "body chno sh = Inr s1" and rest: "for_chno body xs s1 = Inr sh'"
    by (auto split: sum.splits)
  from step [OF s1] obtain new where new: "emits sh s1 new" "R chno new" by blast
  from Cons.IH [OF rest] obtain news where news: "emits s1 sh' (concat news)" "list_all2 R xs news"
    by blast
  from emits_trans [OF new(1) news(1)] new(2) news(2)
  have "emits sh sh' (concat (new # news)) \<and> list_all2 R (chno # xs) (new # news)"
    by simp
  then show ?case by blast
qed

lemma process_msg_peer_bytes:
  assumes "fb_adb_sh_process_msg s mhdr = Inr s'"
  shows "peer_bytes s' = peer_bytes s"
proof -
  have data: "peer_bytes b = peer_bytes a" if "fb_adb_sh_process_msg_channel_data a m = Inr b" for a b m
    using that unfolding fb_adb_sh_process_msg_channel_data_def Let_def
    by (auto simp: peer_bytes_def ch_set_simps nth_list_update_if ch_at_Inr channel_write_def
          FROM_PEER_def TO_PEER_def NR_SPECIAL_CH_def
        split: if_splits sum.splits)
  have window: "peer_bytes b = peer_bytes a" if "fb_adb_sh_process_msg_channel_window a m = Inr b" for a b m
    using that unfolding fb_adb_sh_process_msg_channel_window_def
    by (auto simp: peer_bytes_def ch_set_simps nth_list_update_if ch_at_Inr
        split: if_splits sum.splits prod.splits)
  have close: "peer_bytes b = peer_bytes a" if "fb_adb_sh_process_msg_channel_close a m = Inr b" for a b m
    using that unfolding fb_adb_sh_process_msg_channel_close_def
    by (auto simp: peer_bytes_def ch_set_simps nth_list_update_if ch_at_Inr channel_close_def
          TO_PEER_def NR_SPECIAL_CH_def
        split: if_splits sum.splits)
  have cmd: "peer_bytes b = peer_bytes a" if "read_cmdmsg a h n = Inr (b, bs)" for a b h n bs
    using that unfolding read_cmdmsg_def
    by (auto simp: peer_bytes_def ch_set_simps nth_list_update_if ch_at_Inr FROM_PEER_def TO_PEER_def
        split: if_splits sum.splits)
  have hdr: "peer_bytes (ch_set s FROM_PEER c) = peer_bytes s" for c
    by (simp add: peer_bytes_def ch_set_simps FROM_PEER_def TO_PEER_def)
  from assms show ?thesis
    unfolding fb_adb_sh_process_msg_def
    by (auto split: if_splits sum.splits prod.splits dest!: data window close cmd simp: hdr)
qed

lemma drain_peer_emits:
  assumes "drain_peer sh = Inr sh'"
  shows "emits sh sh' [] \<and> nrch sh' = nrch sh"
proof -
  let ?P = "\<lambda>s. emits sh s [] \<and> nrch s = nrch sh"
  have "?P sh'"
  proof (rule drain_peer_invariant [of ?P, OF _ _ assms])
    show "?P sh" by (simp add: emits_nothing)
  next
    fix s :: fb_adb_sh and mhdr s'
    assume "?P s" "fb_adb_sh_process_msg s mhdr = Inr s'"
    then show "?P s'"
      using process_msg_peer_bytes [of s mhdr s'] process_msg_keeps [of s mhdr s']
      by (simp add: emits_def keeps_def)
  qed
  then show ?thesis .
qed

lemma io_loop_pump_emits:
  assumes "io_loop_pump sh = Inr sh'"
  shows "\<exists>acks rest.
    emits sh sh' (concat acks @ concat rest) \<and>
    list_all2 (\<lambda>chno new. list_all is_window new \<and> (chno < 2 ^ 32 \<longrightarrow> ack_frames chno new))
      [0..<nrch sh] acks \<and>
    list_all2 (\<lambda>chno new. list_all (\<lambda>f. \<not> is_window f) new \<and>
                 (chno < 2 ^ 32 \<longrightarrow> channel_frames chno new))
      [0..<nrch sh] rest"
proof -
  from assms obtain s1 s2 where d: "drain_peer sh = Inr s1"
    and a: "for_chno xmit_acks [0..<nrch sh] s1 = Inr s2"
    and p: "for_chno pump_channel [0..<nrch sh] s2 = Inr sh'"
    unfolding io_loop_pump_def Let_def
    by (auto split: sum.splits if_splits)
  from drain_peer_emits [OF d] have e1: "emits sh s1 []"
    by simp
  from for_chno_emits [where body = xmit_acks
      and R = "\<lambda>chno new. list_all is_window new \<and> (chno < 2 ^ 32 \<longrightarrow> ack_frames chno new)",
      OF xmit_acks_emits a]
  obtain acks where
    acks: "emits s1 s2 (concat acks)"
      "list_all2 (\<lambda>chno new. list_all is_window new \<and> (chno < 2 ^ 32 \<longrightarrow> ack_frames chno new))
         [0..<nrch sh] acks"
    by blast
  from for_chno_emits [where body = pump_channel
      and R = "\<lambda>chno new. list_all (\<lambda>f. \<not> is_window f) new \<and>
                 (chno < 2 ^ 32 \<longrightarrow> channel_frames chno new)",
      OF pump_channel_emits p]
  obtain rest where
    rest: "emits s2 sh' (concat rest)"
      "list_all2 (\<lambda>chno new. list_all (\<lambda>f. \<not> is_window f) new \<and>
                    (chno < 2 ^ 32 \<longrightarrow> channel_frames chno new))
         [0..<nrch sh] rest"
    by blast
  from emits_trans [OF emits_trans [OF e1 acks(1)] rest(1)]
  have "emits sh sh' (concat acks @ concat rest)" by simp
  with acks(2) rest(2) show ?thesis
    by blast
qed

lemma list_all_concat:
  "list_all2 (\<lambda>x new. list_all P new \<and> Q x new) xs news \<Longrightarrow> list_all P (concat news)"
  by (induction xs news rule: list_all2_induct) simp_all

lemma ack_frames_channel: "ack_frames chno new \<Longrightarrow> f \<in> set new \<Longrightarrow> frame_channel f = chno"
  by (cases "(chno, new)" rule: ack_frames.cases) auto

lemma channel_frames_channel: "channel_frames chno new \<Longrightarrow> f \<in> set new \<Longrightarrow> frame_channel f = chno"
  by (cases "(chno, new)" rule: channel_frames.cases) auto

lemma concat_channels:
  assumes "\<And>x new f. R x new \<Longrightarrow> f \<in> set new \<Longrightarrow> frame_channel f = x"
  shows "list_all2 R xs news \<Longrightarrow> f \<in> set (concat news) \<Longrightarrow> frame_channel f \<in> set xs"
  by (induction xs news rule: list_all2_induct) (auto dest: assms)

lemma sorted_concat_frames:
  assumes ch: "\<And>x new f. R x new \<Longrightarrow> f \<in> set new \<Longrightarrow> frame_channel f = x"
  shows "list_all2 R xs news \<Longrightarrow> sorted xs \<Longrightarrow> sorted (map frame_channel (concat news))"
proof (induction xs news rule: list_all2_induct)
  case Nil
  show ?case by simp
next
  case (Cons x xs new news)
  have same: "\<forall>f\<in>set new. frame_channel f = x"
    using ch [OF Cons.hyps(1)] by blast
  then have "map frame_channel new = replicate (length new) x"
    by (simp add: map_replicate_const [symmetric] cong: map_cong)
  then have first: "sorted (map frame_channel new)"
    by (simp add: sorted_replicate)
  have later: "x \<le> frame_channel g" if "g \<in> set (concat news)" for g
    using concat_channels [of R, OF ch Cons.hyps(2) that] Cons.prems by auto
  from Cons have "sorted (map frame_channel (concat news))" by simp
  with first same later show ?case
    by (auto simp: sorted_append)
qed

lemma for_chno_append:
  "for_chno body (xs @ ys) sh =
     (case for_chno body xs sh of Inl e \<Rightarrow> Inl e | Inr s1 \<Rightarrow> for_chno body ys s1)"
  by (induction xs arbitrary: sh) (simp_all split: sum.splits)

lemma for_chno_trace:
  assumes step: "\<And>chno s s'. body chno s = Inr s' \<Longrightarrow> \<exists>new. emits s s' new \<and> R chno new"
  shows "for_chno body [0..<n] sh = Inr sh' \<Longrightarrow>
    \<exists>t news. t 0 = sh \<and> t n = sh' \<and> length news = n \<and> emits sh sh' (concat news) \<and>
      (\<forall>i<n. body i (t i) = Inr (t (Suc i)) \<and> emits (t i) (t (Suc i)) (news ! i) \<and>
               R i (news ! i))"
proof (induction n arbitrary: sh')
  case 0
  then have "sh' = sh" by simp
  then show ?case
    apply -
    apply (rule exI [of _ "\<lambda>i. sh"])
    apply (rule exI [of _ "[]"])
    apply (simp add: emits_nothing)
    done
next
  case (Suc n)
  from Suc.prems obtain mid where mid: "for_chno body [0..<n] sh = Inr mid"
    and last: "body n mid = Inr sh'"
    by (auto simp: for_chno_append split: sum.splits)
  from Suc.IH [OF mid] obtain t news where t: "t 0 = sh" "t n = mid" "length news = n"
    "emits sh mid (concat news)"
    and steps: "\<forall>i<n. body i (t i) = Inr (t (Suc i)) \<and> emits (t i) (t (Suc i)) (news ! i) \<and>
               R i (news ! i)"
    by blast
  from step [OF last] obtain new where new: "emits mid sh' new" "R n new" by blast
  let ?t = "t(Suc n := sh')" and ?news = "news @ [new]"
  have "?t 0 = sh" using t by simp
  moreover have "?t (Suc n) = sh'" by simp
  moreover have "length ?news = Suc n" using t by simp
  moreover have "emits sh sh' (concat ?news)"
    using emits_trans [OF t(4) new(1)] by simp
  moreover have "\<forall>i<Suc n. body i (?t i) = Inr (?t (Suc i)) \<and>
      emits (?t i) (?t (Suc i)) (?news ! i) \<and> R i (?news ! i)"
  proof (intro allI impI)
    fix i assume i: "i < Suc n"
    show "body i (?t i) = Inr (?t (Suc i)) \<and>
      emits (?t i) (?t (Suc i)) (?news ! i) \<and> R i (?news ! i)"
    proof (cases "i < n")
      case True
      with steps t(3) show ?thesis by (simp add: nth_append)
    next
      case False
      with i have "i = n" by simp
      with last new t show ?thesis by (simp add: nth_append)
    qed
  qed
  ultimately show ?case by blast
qed

lemma pump_channel_steps:
  "pump_channel chno s = Inr s' \<Longrightarrow>
     \<exists>s1 s2. (if NR_SPECIAL_CH < chno then xmit_data chno s = Inr s1 else s1 = s) \<and>
       do_pending_close chno s1 = Inr s2 \<and> xmit_eof chno s2 = Inr s'"
  unfolding pump_channel_def by (auto split: sum.splits if_splits)

lemma nth_frames_list_all2:
  "length news = n \<Longrightarrow> \<forall>i<n. R i (news ! i) \<Longrightarrow> list_all2 R [0..<n] news"
  by (simp add: list_all2_conv_all_nth)

text \<open>
  C4, as amended. One iteration of \<open>io_loop_pump\<close> on a session of at most \<open>2^32\<close>
  channels passes through these states. The drain phase comes first and hands over
  nothing. Then \<^verbatim>\<open>xmit_acks\<close> runs for every channel, one at a time in index order, in
  a loop of its own. Then the channels are serviced one at a time in index order, each
  with the steps data (user channels only), pending close, end of file, in this order.
  The messages of the iteration, appended to the \<^verbatim>\<open>TO_PEER\<close> ring in the order of
  the log, are what these steps hand over: the acknowledgements in ascending channel
  order, followed by the data and close messages in ascending channel order, the data of
  a channel before its close.
\<close>

theorem pump_emission_order:
  assumes size: "nrch sh \<le> 2 ^ 32" and run: "io_loop_pump sh = Inr sh'"
  shows "\<exists>drained acked serviced acks rest.
    drain_peer sh = Inr drained \<and> sendlog drained = sendlog sh \<and>
    acked 0 = drained \<and>
    (\<forall>chno<nrch sh.
       xmit_acks chno (acked chno) = Inr (acked (Suc chno)) \<and>
       sendlog (acked (Suc chno)) = sendlog (acked chno) @ acks ! chno) \<and>
    serviced 0 = acked (nrch sh) \<and>
    (\<forall>chno<nrch sh.
       (\<exists>s1 s2.
          (if NR_SPECIAL_CH < chno then xmit_data chno (serviced chno) = Inr s1
           else s1 = serviced chno) \<and>
          do_pending_close chno s1 = Inr s2 \<and>
          xmit_eof chno s2 = Inr (serviced (Suc chno))) \<and>
       sendlog (serviced (Suc chno)) = sendlog (serviced chno) @ rest ! chno) \<and>
    serviced (nrch sh) = sh' \<and>
    sendlog sh' = sendlog sh @ concat acks @ concat rest \<and>
    peer_bytes sh' = peer_bytes sh @ concat (map frame_bytes (concat acks @ concat rest)) \<and>
    list_all2 ack_frames [0..<nrch sh] acks \<and>
    list_all2 channel_frames [0..<nrch sh] rest \<and>
    sorted (map frame_channel (concat acks)) \<and>
    sorted (map frame_channel (concat rest))"
proof -
  let ?n = "nrch sh"
  from run obtain s1 s2 where d: "drain_peer sh = Inr s1"
    and a: "for_chno xmit_acks [0..<?n] s1 = Inr s2"
    and p: "for_chno pump_channel [0..<?n] s2 = Inr sh'"
    unfolding io_loop_pump_def Let_def
    by (auto split: sum.splits if_splits)
  from drain_peer_emits [OF d] have e1: "emits sh s1 []"
    by simp
  from for_chno_trace [where body = xmit_acks
      and R = "\<lambda>chno new. list_all is_window new \<and> (chno < 2 ^ 32 \<longrightarrow> ack_frames chno new)",
      OF xmit_acks_emits a]
  obtain acked acks where acked: "acked 0 = s1" "acked ?n = s2" "length acks = ?n"
    "emits s1 s2 (concat acks)"
    and asteps: "\<forall>i<?n. xmit_acks i (acked i) = Inr (acked (Suc i)) \<and>
       emits (acked i) (acked (Suc i)) (acks ! i) \<and>
       (list_all is_window (acks ! i) \<and> (i < 2 ^ 32 \<longrightarrow> ack_frames i (acks ! i)))"
    by blast
  from for_chno_trace [where body = pump_channel
      and R = "\<lambda>chno new. list_all (\<lambda>f. \<not> is_window f) new \<and>
                 (chno < 2 ^ 32 \<longrightarrow> channel_frames chno new)",
      OF pump_channel_emits p]
  obtain serviced rest where serviced: "serviced 0 = s2" "serviced ?n = sh'" "length rest = ?n"
    "emits s2 sh' (concat rest)"
    and psteps: "\<forall>i<?n. pump_channel i (serviced i) = Inr (serviced (Suc i)) \<and>
       emits (serviced i) (serviced (Suc i)) (rest ! i) \<and>
       (list_all (\<lambda>f. \<not> is_window f) (rest ! i) \<and> (i < 2 ^ 32 \<longrightarrow> channel_frames i (rest ! i)))"
    by blast
  have c1: "drain_peer sh = Inr s1 \<and> sendlog s1 = sendlog sh"
    using d e1 by (simp add: emits_def)
  have c2: "\<forall>chno<?n. xmit_acks chno (acked chno) = Inr (acked (Suc chno)) \<and>
       sendlog (acked (Suc chno)) = sendlog (acked chno) @ acks ! chno"
    using asteps by (simp add: emits_def)
  have c3: "\<forall>chno<?n.
       (\<exists>s1 s2.
          (if NR_SPECIAL_CH < chno then xmit_data chno (serviced chno) = Inr s1
           else s1 = serviced chno) \<and>
          do_pending_close chno s1 = Inr s2 \<and>
          xmit_eof chno s2 = Inr (serviced (Suc chno))) \<and>
       sendlog (serviced (Suc chno)) = sendlog (serviced chno) @ rest ! chno"
  proof (intro allI impI conjI)
    fix chno assume "chno < ?n"
    with psteps have ps: "pump_channel chno (serviced chno) = Inr (serviced (Suc chno))"
      and em: "emits (serviced chno) (serviced (Suc chno)) (rest ! chno)"
      by blast+
    from ps show "\<exists>s1 s2.
          (if NR_SPECIAL_CH < chno then xmit_data chno (serviced chno) = Inr s1
           else s1 = serviced chno) \<and>
          do_pending_close chno s1 = Inr s2 \<and>
          xmit_eof chno s2 = Inr (serviced (Suc chno))"
      by (rule pump_channel_steps)
    from em show "sendlog (serviced (Suc chno)) = sendlog (serviced chno) @ rest ! chno"
      by (simp add: emits_def)
  qed
  have af: "\<forall>i<?n. ack_frames i (acks ! i)"
    using asteps size by auto
  have cf: "\<forall>i<?n. channel_frames i (rest ! i)"
    using psteps size by auto
  have la: "list_all2 ack_frames [0..<?n] acks"
    using acked(3) af by (rule nth_frames_list_all2)
  have lr: "list_all2 channel_frames [0..<?n] rest"
    using serviced(3) cf by (rule nth_frames_list_all2)
  have sa: "sorted (map frame_channel (concat acks))"
    by (rule sorted_concat_frames [of ack_frames, OF ack_frames_channel la]) simp_all
  have sr: "sorted (map frame_channel (concat rest))"
    by (rule sorted_concat_frames [of channel_frames, OF channel_frames_channel lr]) simp_all
  from emits_trans [OF emits_trans [OF e1 acked(4)] serviced(4)]
  have e: "emits sh sh' (concat acks @ concat rest)" by simp
  then have log: "sendlog sh' = sendlog sh @ concat acks @ concat rest"
    and bytes: "peer_bytes sh' = peer_bytes sh @ concat (map frame_bytes (concat acks @ concat rest))"
    by (simp_all add: emits_def)
  from c1 acked(1) c2 serviced(1) acked(2) c3 serviced(2) log bytes la lr sa sr
  show ?thesis
    apply -
    apply (rule exI [of _ s1])
    apply (rule exI [of _ acked])
    apply (rule exI [of _ serviced])
    apply (rule exI [of _ acks])
    apply (rule exI [of _ rest])
    apply (intro conjI)
    apply simp_all
    done
qed

text \<open>
  C5. The messages handed over in one iteration of \<open>io_loop_pump\<close>, which are appended
  to the \<^verbatim>\<open>TO_PEER\<close> ring in the order of the log, are a run of \<^verbatim>\<open>CHANNEL_WINDOW\<close>
  messages followed by a run without any \<^verbatim>\<open>CHANNEL_WINDOW\<close> message: every
  acknowledgement precedes every \<^verbatim>\<open>CHANNEL_DATA\<close> message of the iteration.
\<close>

theorem acks_before_data:
  assumes run: "io_loop_pump sh = Inr sh'"
  shows "\<exists>ws ds.
    sendlog sh' = sendlog sh @ ws @ ds \<and>
    peer_bytes sh' = peer_bytes sh @ concat (map frame_bytes (ws @ ds)) \<and>
    list_all is_window ws \<and> list_all (\<lambda>f. \<not> is_window f) ds"
proof -
  from io_loop_pump_emits [OF run] obtain acks rest where
    e: "emits sh sh' (concat acks @ concat rest)"
    and a0: "list_all2 (\<lambda>chno new. list_all is_window new \<and> (chno < 2 ^ 32 \<longrightarrow> ack_frames chno new))
               [0..<nrch sh] acks"
    and r0: "list_all2 (\<lambda>chno new. list_all (\<lambda>f. \<not> is_window f) new \<and>
                 (chno < 2 ^ 32 \<longrightarrow> channel_frames chno new)) [0..<nrch sh] rest"
    by blast
  from a0 have "list_all is_window (concat acks)"
    by (rule list_all_concat)
  moreover from r0 have "list_all (\<lambda>f. \<not> is_window f) (concat rest)"
    by (rule list_all_concat)
  moreover from e have "sendlog sh' = sendlog sh @ concat acks @ concat rest"
    and "peer_bytes sh' = peer_bytes sh @ concat (map frame_bytes (concat acks @ concat rest))"
    by (simp_all add: emits_def)
  ultimately show ?thesis by blast
qed

lemma demo_order_run: "io_loop_pump demo_order = Inr demo_ordered"
  by (simp add: pump_eval_defs demo_order_def demo_ordered_def)

theorem pump_emission_order_witness:
  "io_loop_pump demo_order = Inr demo_ordered \<and>
   (\<exists>drained acked serviced acks rest.
      drain_peer demo_order = Inr drained \<and> sendlog drained = sendlog demo_order \<and>
      acked 0 = drained \<and>
      (\<forall>chno<nrch demo_order.
         xmit_acks chno (acked chno) = Inr (acked (Suc chno)) \<and>
         sendlog (acked (Suc chno)) = sendlog (acked chno) @ acks ! chno) \<and>
      serviced 0 = acked (nrch demo_order) \<and>
      (\<forall>chno<nrch demo_order.
         (\<exists>s1 s2.
            (if NR_SPECIAL_CH < chno then xmit_data chno (serviced chno) = Inr s1
             else s1 = serviced chno) \<and>
            do_pending_close chno s1 = Inr s2 \<and>
            xmit_eof chno s2 = Inr (serviced (Suc chno))) \<and>
         sendlog (serviced (Suc chno)) = sendlog (serviced chno) @ rest ! chno) \<and>
      serviced (nrch demo_order) = demo_ordered \<and>
      sendlog demo_ordered = sendlog demo_order @ concat acks @ concat rest \<and>
      peer_bytes demo_ordered =
        peer_bytes demo_order @ concat (map frame_bytes (concat acks @ concat rest)) \<and>
      list_all2 ack_frames [0..<nrch demo_order] acks \<and>
      list_all2 channel_frames [0..<nrch demo_order] rest \<and>
      sorted (map frame_channel (concat acks)) \<and>
      sorted (map frame_channel (concat rest))) \<and>
   sendlog demo_order = [] \<and>
   sendlog demo_ordered = [data_frame 2 demo_order, close_frame 2, close_frame 3] \<and>
   fdh (ch demo_order ! 3) = Some 6 \<and> pending_close (ch demo_order ! 3) \<and>
   fdh (ch demo_ordered ! 3) = None"
proof -
  note ex = pump_emission_order [OF _ demo_order_run]
  have n: "nrch demo_order \<le> 2 ^ 32"
    by (simp add: demo_order_def)
  have log: "sendlog demo_order = [] \<and>
     sendlog demo_ordered = [data_frame 2 demo_order, close_frame 2, close_frame 3] \<and>
     fdh (ch demo_order ! 3) = Some 6 \<and> pending_close (ch demo_order ! 3) \<and>
     fdh (ch demo_ordered ! 3) = None"
    by (simp add: demo_order_def demo_ordered_def demo_ch_def data_frame_def
        close_frame_def data_len_def out_budget_def ringbuf_size_def ringbuf_room_def TO_PEER_def
        MSG_CHANNEL_DATA_def MSG_CHANNEL_CLOSE_def
        sizeof_msg_channel_data_def sizeof_msg_channel_close_def)
  from demo_order_run ex [OF n] log show ?thesis
    by (intro conjI) simp_all
qed

text \<open>
  C4 as stated fails: the pump hands over the acknowledgement of channel 3 before the
  data of channel 2, so a message of a higher channel precedes one of a lower channel.
\<close>

theorem pump_channel_order_counterexample:
  "io_loop_pump demo_pump = Inr demo_pumped \<and>
   sendlog demo_pump = [] \<and>
   sendlog demo_pumped = [window_frame 3 7, data_frame 2 demo_pump, close_frame 5] \<and>
   map frame_channel (sendlog demo_pumped) = [3, 2, 5] \<and>
   \<not> sorted (map frame_channel (sendlog demo_pumped))"
proof -
  have log: "sendlog demo_pumped = [window_frame 3 7, data_frame 2 demo_pump, close_frame 5]"
    by (simp add: demo_pump_def demo_pumped_def demo_ch_def window_frame_def data_frame_def
        close_frame_def data_len_def out_budget_def ringbuf_size_def ringbuf_room_def TO_PEER_def
        MSG_CHANNEL_DATA_def MSG_CHANNEL_WINDOW_def MSG_CHANNEL_CLOSE_def
        sizeof_msg_channel_data_def sizeof_msg_channel_window_def sizeof_msg_channel_close_def)
  have chans: "map frame_channel (sendlog demo_pumped) = [3, 2, 5]"
    unfolding log by (simp add: frame_channels)
  have "\<not> sorted (map frame_channel (sendlog demo_pumped))"
    unfolding chans by simp
  with demo_pump_run log chans show ?thesis
    by (simp add: demo_pump_def)
qed

theorem acks_before_data_witness:
  "io_loop_pump demo_pump = Inr demo_pumped \<and>
   (\<exists>ws ds.
      sendlog demo_pumped = sendlog demo_pump @ ws @ ds \<and>
      peer_bytes demo_pumped = peer_bytes demo_pump @ concat (map frame_bytes (ws @ ds)) \<and>
      list_all is_window ws \<and> list_all (\<lambda>f. \<not> is_window f) ds) \<and>
   sendlog demo_pumped = sendlog demo_pump @ [window_frame 3 7] @ [data_frame 2 demo_pump, close_frame 5] \<and>
   peer_bytes demo_pumped =
     peer_bytes demo_pump @
     frame_bytes (window_frame 3 7) @ frame_bytes (data_frame 2 demo_pump) @ frame_bytes (close_frame 5)"
proof -
  note ex = acks_before_data [OF demo_pump_run]
  have log: "sendlog demo_pumped =
      sendlog demo_pump @ [window_frame 3 7] @ [data_frame 2 demo_pump, close_frame 5]"
    by (simp add: demo_pump_def demo_pumped_def demo_ch_def window_frame_def data_frame_def
        close_frame_def data_len_def out_budget_def ringbuf_size_def ringbuf_room_def TO_PEER_def
        MSG_CHANNEL_DATA_def MSG_CHANNEL_WINDOW_def MSG_CHANNEL_CLOSE_def
        sizeof_msg_channel_data_def sizeof_msg_channel_window_def sizeof_msg_channel_close_def)
  have bytes: "peer_bytes demo_pumped =
     peer_bytes demo_pump @
     frame_bytes (window_frame 3 7) @ frame_bytes (data_frame 2 demo_pump) @ frame_bytes (close_frame 5)"
    by (simp add: peer_bytes_def demo_pump_def demo_pumped_def demo_ch_def window_frame_def
        data_frame_def close_frame_def data_len_def out_budget_def ringbuf_size_def ringbuf_room_def
        TO_PEER_def MSG_CHANNEL_DATA_def MSG_CHANNEL_WINDOW_def MSG_CHANNEL_CLOSE_def
        sizeof_msg_channel_data_def sizeof_msg_channel_window_def sizeof_msg_channel_close_def
        bytes_of_msg_channel_data_def bytes_of_msg_channel_window_def bytes_of_msg_def
        bytes_le16_def bytes_le32_def)
  from demo_pump_run ex log bytes show ?thesis
    by (intro conjI)
qed

end
